theory Spec2Isabelle
  imports Complex_Main
begin

section \<open>Numbers: numpy's float64, without rounding\<close>

text \<open>
  The program computes on numpy float64 values. A value is modelled as a real number or
  one of the three special values; arithmetic on finite values is exact (rounding and
  overflow are not modelled), and the special values follow IEEE 754 as numpy applies it:
  a division by zero is not an exception, it yields an infinity or NaN, and every
  comparison with NaN is false. Zero carries no sign.
\<close>

datatype npfloat = Fin real | PInf | NInf | NaN

fun fneg :: "npfloat \<Rightarrow> npfloat" where
  "fneg (Fin a) = Fin (- a)"
| "fneg PInf = NInf"
| "fneg NInf = PInf"
| "fneg NaN = NaN"

fun fadd :: "npfloat \<Rightarrow> npfloat \<Rightarrow> npfloat" where
  "fadd (Fin a) (Fin c) = Fin (a + c)"
| "fadd (Fin a) PInf = PInf"
| "fadd (Fin a) NInf = NInf"
| "fadd PInf (Fin c) = PInf"
| "fadd PInf PInf = PInf"
| "fadd NInf (Fin c) = NInf"
| "fadd NInf NInf = NInf"
| "fadd _ _ = NaN"

definition fsub :: "npfloat \<Rightarrow> npfloat \<Rightarrow> npfloat" where
  "fsub x y = fadd x (fneg y)"

text \<open>The sign of a product with an infinity; \<open>0 * inf\<close> is NaN.\<close>

definition signed_inf :: "real \<Rightarrow> npfloat" where
  "signed_inf a = (if 0 < a then PInf else if a < 0 then NInf else NaN)"

fun fmul :: "npfloat \<Rightarrow> npfloat \<Rightarrow> npfloat" where
  "fmul (Fin a) (Fin c) = Fin (a * c)"
| "fmul (Fin a) PInf = signed_inf a"
| "fmul (Fin a) NInf = signed_inf (- a)"
| "fmul PInf (Fin c) = signed_inf c"
| "fmul NInf (Fin c) = signed_inf (- c)"
| "fmul PInf PInf = PInf"
| "fmul NInf NInf = PInf"
| "fmul PInf NInf = NInf"
| "fmul NInf PInf = NInf"
| "fmul _ _ = NaN"

text \<open>
  Division of float64 scalars and arrays: \<open>x / 0\<close> is an infinity of the sign of \<open>x\<close>,
  \<open>0 / 0\<close> and \<open>inf / inf\<close> are NaN (numpy prints a RuntimeWarning and goes on).
\<close>

fun fdiv :: "npfloat \<Rightarrow> npfloat \<Rightarrow> npfloat" where
  "fdiv (Fin a) (Fin c) = (if c = 0 then signed_inf a else Fin (a / c))"
| "fdiv (Fin a) PInf = Fin 0"
| "fdiv (Fin a) NInf = Fin 0"
| "fdiv PInf (Fin c) = (if 0 \<le> c then PInf else NInf)"
| "fdiv NInf (Fin c) = (if 0 \<le> c then NInf else PInf)"
| "fdiv _ _ = NaN"

fun flt :: "npfloat \<Rightarrow> npfloat \<Rightarrow> bool" where
  "flt (Fin a) (Fin c) = (a < c)"
| "flt (Fin a) PInf = True"
| "flt NInf (Fin c) = True"
| "flt NInf PInf = True"
| "flt _ _ = False"

fun feq :: "npfloat \<Rightarrow> npfloat \<Rightarrow> bool" where
  "feq NaN _ = False"
| "feq _ NaN = False"
| "feq x y = (x = y)"

definition fle :: "npfloat \<Rightarrow> npfloat \<Rightarrow> bool" where
  "fle x y = (flt x y \<or> feq x y)"

definition isnan :: "npfloat \<Rightarrow> bool" where
  "isnan x = (x = NaN)"

text \<open>\<open>np.maximum\<close>, \<open>np.minimum\<close> (NaN wins) and \<open>np.clip\<close>, which is their composition.\<close>

definition fmaximum :: "npfloat \<Rightarrow> npfloat \<Rightarrow> npfloat" where
  "fmaximum x y = (if isnan x \<or> isnan y then NaN else if flt x y then y else x)"

definition fminimum :: "npfloat \<Rightarrow> npfloat \<Rightarrow> npfloat" where
  "fminimum x y = (if isnan x \<or> isnan y then NaN else if flt y x then y else x)"

definition clip :: "npfloat \<Rightarrow> npfloat \<Rightarrow> npfloat \<Rightarrow> npfloat" where
  "clip x lo hi = fminimum (fmaximum x lo) hi"

fun fsqrt :: "npfloat \<Rightarrow> npfloat" where
  "fsqrt (Fin a) = (if 0 \<le> a then Fin (sqrt a) else NaN)"
| "fsqrt PInf = PInf"
| "fsqrt _ = NaN"

fun flog :: "npfloat \<Rightarrow> npfloat" where
  "flog (Fin a) = (if 0 < a then Fin (ln a) else if a = 0 then NInf else NaN)"
| "flog PInf = PInf"
| "flog _ = NaN"

definition np_sum :: "npfloat list \<Rightarrow> npfloat" where
  "np_sum xs = foldl fadd (Fin 0) xs"

definition np_nansum :: "npfloat list \<Rightarrow> npfloat" where
  "np_nansum xs = np_sum (filter (\<lambda>x. \<not> isnan x) xs)"

text \<open>\<open>np.mean\<close>: the mean of an empty selection is \<open>0 / 0\<close>, NaN, with a warning.\<close>

definition np_mean :: "npfloat list \<Rightarrow> npfloat" where
  "np_mean xs = fdiv (np_sum xs) (Fin (real (length xs)))"

text \<open>A finite value inside the closed unit interval.\<close>

definition in_unit :: "npfloat \<Rightarrow> bool" where
  "in_unit x = (fle (Fin 0) x \<and> fle x (Fin 1))"

section \<open>Errors and array indexing\<close>

datatype error = IndexError | ValueError | TypeError | ZeroDivisionError

text \<open>
  \<open>a[mask]\<close> with a boolean array: numpy raises IndexError unless the mask is as long
  as the array's first axis.
\<close>

definition bool_index :: "'a list \<Rightarrow> bool list \<Rightarrow> error + 'a list" where
  "bool_index xs bm =
     (if length bm = length xs then Inr (map fst (filter snd (zip xs bm)))
      else Inl IndexError)"

text \<open>\<open>np.sum(rows, 0)\<close> of an \<open>n x 3\<close> array and of an \<open>n x 2\<close> array.\<close>

type_synonym grow = "npfloat \<times> npfloat \<times> npfloat"
type_synonym xrow = "npfloat \<times> npfloat"

definition sum_rows3 :: "grow list \<Rightarrow> grow" where
  "sum_rows3 rows =
     (np_sum (map fst rows), np_sum (map (fst \<circ> snd) rows), np_sum (map (snd \<circ> snd) rows))"

section \<open>The data and the parameter vector\<close>

text \<open>
  The observation data (\<open>SlugData\<close>): the fields that \<open>em.py\<close> reads. Index arrays hold
  integers; \<open>haploid_snps\<close> is None or an array of SNP indices (counted from 0; numpy's
  negative indices are not modelled).
\<close>

record slugdata =
  n_sfs :: nat
  n_rgs :: nat
  n_reads :: nat
  n_snps :: nat
  SNP2SFS :: "int list"
  READ2RG :: "int list"
  READ2SNP :: "int list"
  READS :: "int list"
  FLIPPED_READS :: "bool list"
  psi :: "npfloat list"
  haploid_snps :: "nat list option"

section \<open>The M-step: one update per parameter block\<close>

subsection \<open>\<open>update_ftau\<close>: the closed-form SFS update\<close>

text \<open>\<open>G0, G1, G2 = np.sum(post_g[data.SNP2SFS == k], 0)\<close>\<close>

definition sfs_mask :: "slugdata \<Rightarrow> nat \<Rightarrow> bool list" where
  "sfs_mask data k = map (\<lambda>c. c = int k) (SNP2SFS data)"

definition sfs_totals :: "slugdata \<Rightarrow> grow list \<Rightarrow> nat \<Rightarrow> error + grow" where
  "sfs_totals data post_g k =
     (case bool_index post_g (sfs_mask data k) of
        Inl err \<Rightarrow> Inl err
      | Inr rows \<Rightarrow> Inr (sum_rows3 rows))"

text \<open>\<open>tau[:], F[:] = old_tau, old_F\<close> into arrays of length \<open>n_sfs\<close>: a shape that
  does not fit raises ValueError (a one-element array is broadcast).\<close>

definition assign_all :: "nat \<Rightarrow> npfloat list \<Rightarrow> error + npfloat list" where
  "assign_all n old =
     (if length old = n then Inr old
      else if length old = 1 then Inr (replicate n (hd old))
      else Inl ValueError)"

definition eps300 :: real where
  "eps300 = 1 / 10 ^ 300"

text \<open>\<open>ix1 = data.SNP2SFS == k; ix1[data.haploid_snps] = False\<close>\<close>

definition clear_haploid :: "bool list \<Rightarrow> nat list \<Rightarrow> error + bool list" where
  "clear_haploid ix1 hs =
     (if \<forall>i \<in> set hs. i < length ix1
      then Inr (map (\<lambda>(i, m). m \<and> i \<notin> set hs) (zip [0..<length ix1] ix1))
      else Inl IndexError)"

text \<open>The totals that the \<open>F\<close> update uses: those of the non-haploid SNPs of the
  category when there are any, the totals of the whole category otherwise.\<close>

definition F_totals :: "slugdata \<Rightarrow> grow list \<Rightarrow> nat \<Rightarrow> grow \<Rightarrow> error + grow" where
  "F_totals data post_g k G =
     (case haploid_snps data of
        None \<Rightarrow> Inr G
      | Some hs \<Rightarrow>
          (case clear_haploid (sfs_mask data k) hs of
             Inl err \<Rightarrow> Inl err
           | Inr ix1 \<Rightarrow>
               if \<forall>m \<in> set ix1. \<not> m then Inr G
               else (case bool_index post_g ix1 of
                       Inl err \<Rightarrow> Inl err
                     | Inr rows \<Rightarrow> Inr (sum_rows3 rows))))"

definition tau_closed :: "grow \<Rightarrow> npfloat" where
  "tau_closed G =
     (case G of (G0, G1, G2) \<Rightarrow>
        if flt (Fin 0) (fadd (fadd G0 G1) G2)
        then fdiv (fadd (fdiv G1 (Fin 2)) G2) (fadd (fadd G0 G1) G2)
        else Fin 0)"

definition F_closed :: "grow \<Rightarrow> npfloat" where
  "F_closed G =
     (case G of (G0, G1, G2) \<Rightarrow>
        fsub (fdiv (fmul (Fin 2) G0) (fadd (fadd (fmul (Fin 2) G0) G1) (Fin eps300)))
             (fdiv G1 (fadd (fadd (fmul (Fin 2) G2) G1) (Fin eps300))))"

text \<open>The body of \<open>for k in range(data.n_sfs)\<close>, on the pair of arrays \<open>(F, tau)\<close>.\<close>

definition update_ftau_step ::
  "slugdata \<Rightarrow> grow list \<Rightarrow> bool \<Rightarrow> nat \<Rightarrow> npfloat list \<times> npfloat list
     \<Rightarrow> error + npfloat list \<times> npfloat list" where
  "update_ftau_step data post_g upd_F k Ft =
     (case Ft of (F, tau) \<Rightarrow>
        (case sfs_totals data post_g k of
           Inl err \<Rightarrow> Inl err
         | Inr G \<Rightarrow>
             let tau' = tau[k := tau_closed G] in
             if upd_F then
               (case F_totals data post_g k G of
                  Inl err \<Rightarrow> Inl err
                | Inr G' \<Rightarrow> Inr (map (\<lambda>x. clip x (Fin 0) (Fin 1)) (F[k := F_closed G']), tau'))
             else Inr (map (\<lambda>x. clip x (Fin 0) (Fin 1)) F, tau')))"

fun for_range ::
  "(nat \<Rightarrow> 's \<Rightarrow> error + 's) \<Rightarrow> nat list \<Rightarrow> 's \<Rightarrow> error + 's" where
  "for_range body [] s = Inr s"
| "for_range body (k # ks) s =
     (case body k s of Inl err \<Rightarrow> Inl err | Inr s' \<Rightarrow> for_range body ks s')"

text \<open>Returns \<open>(F, tau)\<close>, as the source does.\<close>

definition update_ftau ::
  "npfloat list \<Rightarrow> npfloat list \<Rightarrow> slugdata \<Rightarrow> grow list \<Rightarrow> bool
     \<Rightarrow> error + npfloat list \<times> npfloat list" where
  "update_ftau old_F old_tau data post_g upd_F =
     (case assign_all (n_sfs data) old_tau of
        Inl err \<Rightarrow> Inl err
      | Inr tau \<Rightarrow>
          (case assign_all (n_sfs data) old_F of
             Inl err \<Rightarrow> Inl err
           | Inr F \<Rightarrow>
               for_range (update_ftau_step data post_g upd_F) [0..<n_sfs data] (F, tau)))"

subsection \<open>\<open>update_c\<close>: the contamination update\<close>

text \<open>\<open>c = np.empty(n_rgs)\<close> is uninitialised; the loop overwrites every entry.\<close>

definition update_c :: "npfloat list \<Rightarrow> int list \<Rightarrow> nat \<Rightarrow> error + npfloat list" where
  "update_c post_c read2rg n =
     for_range
       (\<lambda>r c. case bool_index post_c (map (\<lambda>g. g = int r) read2rg) of
                 Inl err \<Rightarrow> Inl err
               | Inr sel \<Rightarrow> Inr (c[r := np_mean sel]))
       [0..<n] (replicate n NaN)"

subsection \<open>\<open>update_eb\<close>: the error and bias update\<close>

text \<open>\<open>np.sum(post_x[mask, j])\<close> for a column \<open>j\<close>.\<close>

definition sum_col :: "(xrow \<Rightarrow> npfloat) \<Rightarrow> xrow list \<Rightarrow> bool list \<Rightarrow> error + npfloat" where
  "sum_col col post_x bm =
     (case bool_index post_x bm of
        Inl err \<Rightarrow> Inl err
      | Inr rows \<Rightarrow> Inr (np_sum (map col rows)))"

text \<open>The sum of two such column sums, over the reads not flipped and flipped.\<close>

definition sum_two ::
  "xrow list \<Rightarrow> bool list \<Rightarrow> (xrow \<Rightarrow> npfloat) \<Rightarrow> bool list \<Rightarrow> (xrow \<Rightarrow> npfloat)
     \<Rightarrow> error + npfloat" where
  "sum_two post_x m1 col1 m2 col2 =
     (case sum_col col1 post_x m1 of
        Inl err \<Rightarrow> Inl err
      | Inr s1 \<Rightarrow>
          (case sum_col col2 post_x m2 of
             Inl err \<Rightarrow> Inl err
           | Inr s2 \<Rightarrow> Inr (fadd s1 s2)))"

record eb_counts =
  errors :: npfloat
  not_errors :: npfloat
  bias :: npfloat
  not_bias :: npfloat

text \<open>The four counts. \<open>R & ~F\<close> on arrays of different lengths raises ValueError
  (the per-read arrays have one length; broadcasting a one-element array is not
  modelled).\<close>

definition eb_count ::
  "xrow list \<Rightarrow> int list \<Rightarrow> bool list \<Rightarrow> error + eb_counts" where
  "eb_count post_x R Fl =
     (if length R \<noteq> length Fl then Inl ValueError
      else
        let Rb = map (\<lambda>x. x \<noteq> 0) R;
            R_nF = map (\<lambda>(r, f). r \<and> \<not> f) (zip Rb Fl);
            R_F = map (\<lambda>(r, f). r \<and> f) (zip Rb Fl);
            nR_nF = map (\<lambda>(r, f). \<not> r \<and> \<not> f) (zip Rb Fl);
            nR_F = map (\<lambda>(r, f). \<not> r \<and> f) (zip Rb Fl)
        in
        (case sum_two post_x R_nF fst R_F snd of
           Inl err \<Rightarrow> Inl err
         | Inr er \<Rightarrow>
        (case sum_two post_x nR_nF fst nR_F snd of
           Inl err \<Rightarrow> Inl err
         | Inr ne \<Rightarrow>
        (case sum_two post_x nR_nF snd nR_F fst of
           Inl err \<Rightarrow> Inl err
         | Inr bi \<Rightarrow>
        (case sum_two post_x R_nF snd R_F fst of
           Inl err \<Rightarrow> Inl err
         | Inr nb \<Rightarrow>
             Inr \<lparr>errors = er, not_errors = ne, bias = bi, not_bias = nb\<rparr>)))))"

definition eb_rates :: "eb_counts \<Rightarrow> bool \<Rightarrow> npfloat \<times> npfloat" where
  "eb_rates c two_errors =
     (if two_errors then
        (if flt (Fin 0) (fadd (errors c) (not_errors c))
         then fdiv (errors c) (fadd (errors c) (not_errors c)) else Fin 0,
         if flt (Fin 0) (fadd (bias c) (not_bias c))
         then fdiv (bias c) (fadd (bias c) (not_bias c)) else Fin 0)
      else
        let e = fdiv (fadd (errors c) (bias c))
                  (fadd (fadd (fadd (errors c) (bias c)) (not_errors c)) (not_bias c))
        in (e, e))"

definition update_eb ::
  "xrow list \<Rightarrow> int list \<Rightarrow> bool list \<Rightarrow> bool \<Rightarrow> error + npfloat \<times> npfloat" where
  "update_eb post_x R Fl two_errors =
     (case eb_count post_x R Fl of
        Inl err \<Rightarrow> Inl err
      | Inr c \<Rightarrow> Inr (eb_rates c two_errors))"


section \<open>The parameter vector, the controller and the collaborators\<close>

text \<open>
  Modelled from the spec: the parameter-vector class (\<open>SlugPars\<close>) is not part of
  \<open>em.py\<close>. It is the value type of the spec's data model: the blocks \<open>F\<close>, \<open>tau\<close>,
  \<open>cont\<close>, \<open>e\<close>, \<open>b\<close> (here \<open>par_F\<close> ... \<open>par_b\<close>), a shadow copy of the previous value of
  each block, and the current and previous log-likelihood, which are not part of the
  flattened vector.
\<close>

type_synonym vec = "npfloat list"

record slugpars =
  par_F :: vec
  par_tau :: vec
  par_cont :: vec
  par_e :: npfloat
  par_b :: npfloat
  prev_F :: vec
  prev_tau :: vec
  prev_cont :: vec
  prev_e :: npfloat
  prev_b :: npfloat
  ll :: npfloat
  prev_ll :: npfloat

text \<open>Modelled from the spec: \<open>pars.delta_ll\<close>, the last log-likelihood improvement.\<close>

definition delta_ll :: "slugpars \<Rightarrow> npfloat" where
  "delta_ll p = fsub (ll p) (prev_ll p)"

text \<open>Modelled from the spec: \<open>pars.pars\<close>, the blocks flattened to one ordered vector,
  and the assignment \<open>pars.pars[:] = v\<close>, which numpy refuses (ValueError) for a vector
  of another length.\<close>

definition flat :: "slugpars \<Rightarrow> vec" where
  "flat p = par_F p @ par_tau p @ par_cont p @ [par_e p, par_b p]"

definition set_flat :: "slugpars \<Rightarrow> vec \<Rightarrow> error + slugpars" where
  "set_flat p v =
     (if length v \<noteq> length (flat p) then Inl ValueError
      else
        let nF = length (par_F p); nT = length (par_tau p); nC = length (par_cont p) in
        Inr (p\<lparr>par_F := take nF v,
               par_tau := take nT (drop nF v),
               par_cont := take nC (drop (nF + nT) v),
               par_e := v ! (nF + nT + nC),
               par_b := v ! (nF + nT + nC + 1)\<rparr>))"

text \<open>Elementwise arithmetic on two arrays; shapes that differ raise ValueError (a
  flattened vector has at least two entries, so nothing is broadcast).\<close>

definition vzip :: "(npfloat \<Rightarrow> npfloat \<Rightarrow> npfloat) \<Rightarrow> vec \<Rightarrow> vec \<Rightarrow> error + vec" where
  "vzip f u v = (if length u = length v then Inr (map (\<lambda>(x, y). f x y) (zip u v))
                 else Inl ValueError)"

text \<open>Modelled from the spec: \<open>pars1 - pars\<close>, the difference of the flattened vectors.\<close>

definition pars_sub :: "slugpars \<Rightarrow> slugpars \<Rightarrow> error + vec" where
  "pars_sub p q = vzip fsub (flat p) (flat q)"

text \<open>\<open>norm\<close>: \<open>np.sqrt(np.nansum(np.power(self, 2)))\<close>\<close>

definition norm_vec :: "vec \<Rightarrow> npfloat" where
  "norm_vec v = fsqrt (np_nansum (map (\<lambda>x. fmul x x) v))"

text \<open>The controller: the options that \<open>em.py\<close> reads. The fields \<open>do_update_ftau\<close>
  and \<open>do_update_eb\<close> are the source's \<open>controller.update_ftau\<close> and
  \<open>controller.update_eb\<close>.\<close>

record controller =
  do_update_ftau :: bool
  update_F :: bool
  update_cont :: bool
  do_update_eb :: bool
  update_bias :: bool
  do_ll :: bool
  copy_pars :: bool
  n_iter :: nat
  squarem_min :: npfloat
  squarem_max :: npfloat
  squarem_mstep :: npfloat
  param_tol :: npfloat
  ll_tol :: npfloat

text \<open>
  The functions of the emission module (\<open>.emissions\<close>) and scipy's \<open>minimize\<close> are not
  part of \<open>em.py\<close>: they are parameters of the model, pure functions of their arguments.
  \<open>minimize\<close> takes the objective, the start and the bounds and returns \<open>OO.x\<close> and
  \<open>OO.success\<close>, or the exception that the objective raised.
\<close>

type_synonym gmat = "grow list"
type_synonym xmat = "xrow list"
type_synonym objective = "npfloat \<times> npfloat \<Rightarrow> error + npfloat"
type_synonym box = "(npfloat \<times> npfloat) \<times> (npfloat \<times> npfloat)"

record externals =
  fwd_p_g :: "slugdata \<Rightarrow> slugpars \<Rightarrow> gmat"
  bwd_p_o_given_x :: "int list \<Rightarrow> bool list \<Rightarrow> npfloat \<Rightarrow> npfloat \<Rightarrow> xmat"
  bwd_p_one_o_given_g :: "xmat \<Rightarrow> vec \<Rightarrow> vec \<Rightarrow> int list \<Rightarrow> int list \<Rightarrow> nat \<Rightarrow> gmat"
  bwd_p_all_o_given_g :: "gmat \<Rightarrow> int list \<Rightarrow> nat \<Rightarrow> gmat"
  fwd_p_x_cont :: "vec \<Rightarrow> int list \<Rightarrow> vec"
  fwd_p_x_nocont :: "gmat \<Rightarrow> int list \<Rightarrow> vec"
  fwd_p_x :: "vec \<Rightarrow> vec \<Rightarrow> vec \<Rightarrow> int list \<Rightarrow> vec"
  posterior_g :: "gmat \<Rightarrow> gmat \<Rightarrow> gmat"
  posterior_c :: "xmat \<Rightarrow> vec \<Rightarrow> vec \<Rightarrow> vec \<Rightarrow> int list \<Rightarrow> vec"
  posterior_x :: "xmat \<Rightarrow> vec \<Rightarrow> vec \<Rightarrow> vec \<Rightarrow> int list \<Rightarrow> xmat"
  calc_full_ll :: "slugdata \<Rightarrow> slugpars \<Rightarrow> npfloat"
  minimize :: "objective \<Rightarrow> npfloat \<times> npfloat \<Rightarrow> box \<Rightarrow> error + (npfloat \<times> npfloat) \<times> bool"

subsection \<open>\<open>update_ftau_numeric\<close>: the optimised SFS update\<close>

text \<open>The objective \<open>f\<close> of category \<open>k\<close>: the negative multinomial log-likelihood; a
  NaN raises ValueError.\<close>

definition sfs_objective :: "grow \<Rightarrow> objective" where
  "sfs_objective G args =
     (case G of (G0, G1, G2) \<Rightarrow>
      case args of (tau_, F_) \<Rightarrow>
        let u = fsub (Fin 1) tau_;
            w = fsub (Fin 1) F_;
            c0 = fadd (fmul F_ u) (fmul w (fmul u u));
            c1 = fmul (fmul (fmul w (Fin 2)) tau_) u;
            c2 = fadd (fmul F_ tau_) (fmul (fmul w tau_) tau_);
            x = fadd (fadd (fmul (flog c0) G0) (fmul (flog c1) G1)) (fmul (flog c2) G2)
        in if isnan x then Inl ValueError else Inr (fneg x))"

definition sfs_bounds :: box where
  "sfs_bounds = ((Fin (1 / 10 ^ 10), Fin (1 - 1 / 10 ^ 10)),
                 (Fin (1 / 10 ^ 10), Fin (1 - 1 / 10 ^ 10)))"

definition update_ftau_numeric_step ::
  "externals \<Rightarrow> slugdata \<Rightarrow> grow list \<Rightarrow> nat \<Rightarrow> vec \<times> vec \<Rightarrow> error + vec \<times> vec" where
  "update_ftau_numeric_step X data post_g k Ft =
     (case Ft of (F, tau) \<Rightarrow>
        (case sfs_totals data post_g k of
           Inl err \<Rightarrow> Inl err
         | Inr G \<Rightarrow>
             let init = (tau ! k, F ! k) in
             (case sfs_objective G init of
                Inl err \<Rightarrow> Inl err
              | Inr prev \<Rightarrow>
                  (case minimize X (sfs_objective G) init sfs_bounds of
                     Inl err \<Rightarrow> Inl err
                   | Inr (x, success) \<Rightarrow> Inr (F[k := snd x], tau[k := fst x])))))"

text \<open>\<open>raise NotImplemented(...)\<close> calls a constant that is not callable: the exception
  that reaches the caller is a TypeError.\<close>

definition update_ftau_numeric ::
  "externals \<Rightarrow> vec \<Rightarrow> vec \<Rightarrow> slugdata \<Rightarrow> grow list \<Rightarrow> bool \<Rightarrow> error + vec \<times> vec" where
  "update_ftau_numeric X old_F old_tau data post_g upd_F =
     (if \<not> upd_F then Inl TypeError
      else
        (case assign_all (n_sfs data) old_tau of
           Inl err \<Rightarrow> Inl err
         | Inr tau \<Rightarrow>
             (case assign_all (n_sfs data) old_F of
                Inl err \<Rightarrow> Inl err
              | Inr F \<Rightarrow>
                  for_range (update_ftau_numeric_step X data post_g) [0..<n_sfs data] (F, tau))))"


section \<open>\<open>update_pars\<close>: one EM step\<close>

text \<open>The three blocks \<open>if O.update_ftau\<close>, \<open>if O.update_cont\<close>, \<open>if O.update_eb\<close>, each on
  the parameter object as the block before left it.\<close>

definition ftau_block ::
  "externals \<Rightarrow> slugdata \<Rightarrow> controller \<Rightarrow> gmat \<Rightarrow> slugpars \<Rightarrow> error + slugpars" where
  "ftau_block X data ctl post_g p =
     (case update_ftau_numeric X (par_F p) (par_tau p) data post_g (update_F ctl) of
        Inl err \<Rightarrow> Inl err
      | Inr (F', tau') \<Rightarrow>
          Inr (p\<lparr>prev_F := par_F p, prev_tau := par_tau p, par_F := F', par_tau := tau'\<rparr>))"

definition cont_block ::
  "slugdata \<Rightarrow> vec \<Rightarrow> slugpars \<Rightarrow> error + slugpars" where
  "cont_block data post_c p =
     (case update_c post_c (READ2RG data) (n_rgs data) of
        Inl err \<Rightarrow> Inl err
      | Inr c \<Rightarrow> Inr (p\<lparr>prev_cont := par_cont p, par_cont := c\<rparr>))"

definition eb_block ::
  "slugdata \<Rightarrow> controller \<Rightarrow> xmat \<Rightarrow> slugpars \<Rightarrow> error + slugpars" where
  "eb_block data ctl post_x p =
     (case update_eb post_x (READS data) (FLIPPED_READS data) (update_bias ctl) of
        Inl err \<Rightarrow> Inl err
      | Inr (e', b') \<Rightarrow>
          Inr (p\<lparr>prev_e := par_e p, prev_b := par_b p, par_e := e', par_b := b'\<rparr>))"

text \<open>The updated parameter object: the work of \<open>update_pars\<close> on the object it
  updates, which is a deep copy of the argument or the argument itself. The blocks of the
  parameter vector are values: \<open>fwd_c\<close> is the contamination vector at entry, also after
  the contamination block has replaced \<open>pars.cont\<close>.\<close>

definition updated_pars ::
  "externals \<Rightarrow> slugpars \<Rightarrow> slugdata \<Rightarrow> controller \<Rightarrow> error + slugpars" where
  "updated_pars X pars data ctl =
     (let fwd_g = fwd_p_g X data pars;
          fwd_a = psi data;
          fwd_c = par_cont pars;
          bwd_x = bwd_p_o_given_x X (READS data) (FLIPPED_READS data) (par_e pars) (par_b pars);
          bwd_g1 = bwd_p_one_o_given_g X bwd_x fwd_a fwd_c (READ2SNP data) (READ2RG data)
                     (n_reads data);
          bwd_g = bwd_p_all_o_given_g X bwd_g1 (READ2SNP data) (n_snps data);
          fwd_x_cont = fwd_p_x_cont X fwd_a (READ2SNP data);
          fwd_x_nocont = fwd_p_x_nocont X fwd_g (READ2SNP data);
          fwd_x = fwd_p_x X fwd_x_cont fwd_x_nocont fwd_c (READ2RG data)
      in
      (case (if do_update_ftau ctl then ftau_block X data ctl (posterior_g X bwd_g fwd_g) pars
             else Inr pars) of
         Inl err \<Rightarrow> Inl err
       | Inr p1 \<Rightarrow>
      (case (if update_cont ctl
             then cont_block data
                    (posterior_c X bwd_x fwd_x_nocont fwd_x_cont fwd_c (READ2RG data)) p1
             else Inr p1) of
         Inl err \<Rightarrow> Inl err
       | Inr p2 \<Rightarrow>
      (case (if do_update_eb ctl
             then eb_block data ctl
                    (posterior_x X bwd_x fwd_x_cont fwd_x_nocont fwd_c (READ2RG data)) p2
             else Inr p2) of
         Inl err \<Rightarrow> Inl err
       | Inr p3 \<Rightarrow>
           Inr (if do_ll ctl then p3\<lparr>ll := calc_full_ll X data p3, prev_ll := ll p3\<rparr>
                else p3)))))"

text \<open>
  \<open>update_pars\<close> returns a pair: the caller's parameter object after the call, and the
  object that the call returns. With \<open>copy_pars\<close> the work is done on a deep copy and the
  caller's object is as it was; without, the caller's object is the one updated and
  returned.
\<close>

definition update_pars ::
  "externals \<Rightarrow> slugpars \<Rightarrow> slugdata \<Rightarrow> controller \<Rightarrow> error + slugpars \<times> slugpars" where
  "update_pars X pars data ctl =
     (case updated_pars X pars data ctl of
        Inl err \<Rightarrow> Inl err
      | Inr p \<Rightarrow> Inr (if copy_pars ctl then pars else p, p))"

section \<open>\<open>squarem\<close>\<close>

definition EPS :: npfloat where
  "EPS = Fin (1 / 10 ^ 10)"

text \<open>The stabilisation of the candidate: when an entry is outside \<open>[0, 1]\<close>, the
  entries below 0 become \<open>EPS\<close>, then those above 1 become \<open>1 - EPS\<close>.\<close>

definition stabilize :: "vec \<Rightarrow> vec" where
  "stabilize v =
     (if list_all (\<lambda>x. fle (Fin 0) x) v \<and> list_all (\<lambda>x. fle x (Fin 1)) v then v
      else map (\<lambda>x. let y = (if flt x (Fin 0) then EPS else x)
                     in if flt (Fin 1) y then fsub (Fin 1) EPS else y) v)"

text \<open>\<open>pars.pars + 2 * step_size * \<Delta>p1 + step_size * step_size * \<Delta>p3\<close>\<close>

definition extrapolate :: "vec \<Rightarrow> npfloat \<Rightarrow> vec \<Rightarrow> vec \<Rightarrow> error + vec" where
  "extrapolate v step_size dp1 dp3 =
     (case vzip fadd v (map (fmul (fmul (Fin 2) step_size)) dp1) of
        Inl err \<Rightarrow> Inl err
      | Inr s \<Rightarrow> vzip fadd s (map (fmul (fmul step_size step_size)) dp3))"

definition step_size_of :: "vec \<Rightarrow> vec \<Rightarrow> npfloat \<Rightarrow> npfloat \<Rightarrow> npfloat" where
  "step_size_of dp1 dp3 min_step max_step =
     clip (fdiv (norm_vec dp1) (norm_vec dp3)) min_step max_step"

text \<open>
  The end of an outer iteration: the current point and the maximal step after the
  acceptance test.

  Modelled from the spec: the controller class is not part of \<open>em.py\<close>; its numeric
  options are Python numbers. So \<open>max_step / controller.squarem_mstep\<close> is a division of
  Python numbers while \<open>max_step\<close> is still the value read from the controller, and a
  factor 0 raises ZeroDivisionError there. After that division \<open>max_step\<close> is a numpy
  scalar, which a zero divides to infinity or NaN; that is reached only with a factor that
  is not 0, since the first division of a run is the one of Python numbers (a product
  \<open>max_step *= controller.squarem_mstep\<close> of Python numbers is a Python number).
\<close>

definition accept ::
  "controller \<Rightarrow> npfloat \<Rightarrow> npfloat \<Rightarrow> slugpars \<Rightarrow> slugpars
     \<Rightarrow> error + slugpars \<times> npfloat" where
  "accept ctl step_size max_step pars2 pars_sq =
     (if fle (ll pars_sq) (ll pars2) then
        (if fle max_step step_size then
           (if squarem_mstep ctl = Fin 0 then Inl ZeroDivisionError
            else Inr (pars2, fmaximum (squarem_max ctl) (fdiv max_step (squarem_mstep ctl))))
         else Inr (pars2, max_step))
      else
        Inr (pars_sq, if feq step_size max_step then fmul max_step (squarem_mstep ctl)
                      else max_step))"

text \<open>One outer iteration either leaves the loop with the value that \<open>squarem\<close> returns
  (\<open>break\<close>), or ends with the next current point and maximal step.\<close>

datatype iter_result = Break slugpars | Continue slugpars npfloat

definition stop_check :: "controller \<Rightarrow> vec \<Rightarrow> npfloat \<Rightarrow> bool" where
  "stop_check ctl dp gain = (flt (norm_vec dp) (param_tol ctl) \<or> flt gain (ll_tol ctl))"

text \<open>The candidate: a deep copy of \<open>pars2\<close> whose flattened vector is the
  extrapolation, then stabilised.\<close>

definition squarem_candidate ::
  "vec \<Rightarrow> npfloat \<Rightarrow> vec \<Rightarrow> vec \<Rightarrow> slugpars \<Rightarrow> error + slugpars" where
  "squarem_candidate v0 step_size dp1 dp3 pars2 =
     (case extrapolate v0 step_size dp1 dp3 of
        Inl err \<Rightarrow> Inl err
      | Inr v \<Rightarrow>
          (case set_flat pars2 v of
             Inl err \<Rightarrow> Inl err
           | Inr cand \<Rightarrow> set_flat cand (stabilize (flat cand))))"

text \<open>The third part of the iteration, from \<open>\<Delta>p3\<close> on.\<close>

definition squarem_jump ::
  "externals \<Rightarrow> slugdata \<Rightarrow> controller \<Rightarrow> npfloat \<Rightarrow> npfloat \<Rightarrow> slugpars \<Rightarrow> slugpars
     \<Rightarrow> vec \<Rightarrow> vec \<Rightarrow> error + iter_result" where
  "squarem_jump X data ctl min_step max_step pars pars2 dp1 dp2 =
     (case vzip fsub dp2 dp1 of
        Inl err \<Rightarrow> Inl err
      | Inr dp3 \<Rightarrow>
          let step_size = step_size_of dp1 dp3 min_step max_step in
          (case squarem_candidate (flat pars) step_size dp1 dp3 pars2 of
             Inl err \<Rightarrow> Inl err
           | Inr cand \<Rightarrow>
               (case update_pars X cand data ctl of
                  Inl err \<Rightarrow> Inl err
                | Inr (_, pars_sq) \<Rightarrow>
                    (case accept ctl step_size max_step pars2 pars_sq of
                       Inl err \<Rightarrow> Inl err
                     | Inr (p, m) \<Rightarrow> Inr (Continue p m)))))"

text \<open>The body of \<open>for i in range(controller.n_iter)\<close>. It runs with \<open>copy_pars\<close> set, so
  every call of \<open>update_pars\<close> leaves its argument as it was and the objects \<open>pars\<close>,
  \<open>pars1\<close>, \<open>pars2\<close> are distinct.\<close>

definition squarem_iter ::
  "externals \<Rightarrow> slugdata \<Rightarrow> controller \<Rightarrow> npfloat \<Rightarrow> npfloat \<Rightarrow> slugpars
     \<Rightarrow> error + iter_result" where
  "squarem_iter X data ctl min_step max_step pars =
     (case update_pars X pars data ctl of
        Inl err \<Rightarrow> Inl err
      | Inr (_, pars1) \<Rightarrow>
     (case pars_sub pars1 pars of
        Inl err \<Rightarrow> Inl err
      | Inr dp1 \<Rightarrow>
          if stop_check ctl dp1 (fsub (ll pars1) (prev_ll pars1)) then Inr (Break pars1)
          else
     (case update_pars X pars1 data ctl of
        Inl err \<Rightarrow> Inl err
      | Inr (_, pars2) \<Rightarrow>
     (case pars_sub pars2 pars1 of
        Inl err \<Rightarrow> Inl err
      | Inr dp2 \<Rightarrow>
          if stop_check ctl dp2 (fsub (ll pars2) (ll pars1)) then Inr (Break pars2)
          else squarem_jump X data ctl min_step max_step pars pars2 dp1 dp2))))"

fun squarem_loop ::
  "externals \<Rightarrow> slugdata \<Rightarrow> controller \<Rightarrow> npfloat \<Rightarrow> nat \<Rightarrow> npfloat \<Rightarrow> slugpars
     \<Rightarrow> error + slugpars" where
  "squarem_loop X data ctl min_step 0 max_step pars = Inr pars"
| "squarem_loop X data ctl min_step (Suc n) max_step pars =
     (case squarem_iter X data ctl min_step max_step pars of
        Inl err \<Rightarrow> Inl err
      | Inr (Break p) \<Rightarrow> Inr p
      | Inr (Continue p m) \<Rightarrow> squarem_loop X data ctl min_step n m p)"

text \<open>\<open>squarem\<close> returns the controller as the call leaves it, and the parameters or the
  exception.\<close>

definition squarem ::
  "externals \<Rightarrow> slugpars \<Rightarrow> slugdata \<Rightarrow> controller \<Rightarrow> controller \<times> (error + slugpars)" where
  "squarem X pars0 data ctl =
     (let ctl' = ctl\<lparr>copy_pars := True\<rparr> in
      (ctl', squarem_loop X data ctl' (squarem_min ctl') (n_iter ctl') (squarem_max ctl') pars0))"

section \<open>\<open>em\<close>\<close>

text \<open>The loop of \<open>em\<close> calls \<open>update_pars\<close> for its effect on \<open>pars\<close> and drops the
  value that the call returns.\<close>

fun em_loop ::
  "externals \<Rightarrow> slugdata \<Rightarrow> controller \<Rightarrow> nat \<Rightarrow> slugpars \<Rightarrow> error + slugpars" where
  "em_loop X data ctl 0 pars = Inr pars"
| "em_loop X data ctl (Suc n) pars =
     (case update_pars X pars data ctl of
        Inl err \<Rightarrow> Inl err
      | Inr (pars', _) \<Rightarrow>
          if flt (delta_ll pars') (ll_tol ctl) then Inr pars'
          else em_loop X data ctl n pars')"

definition em :: "externals \<Rightarrow> slugpars \<Rightarrow> slugdata \<Rightarrow> controller \<Rightarrow> error + slugpars" where
  "em X pars data ctl = em_loop X data ctl (n_iter ctl) pars"



section \<open>Notions used in the statements\<close>

text \<open>Posterior rows given as real numbers, the rows of the SNPs of one SFS category,
  and their column totals \<open>(G0, G1, G2)\<close>.\<close>

definition fin3 :: "real \<times> real \<times> real \<Rightarrow> grow" where
  "fin3 r = (case r of (a, b, c) \<Rightarrow> (Fin a, Fin b, Fin c))"

definition nonneg3 :: "real \<times> real \<times> real \<Rightarrow> bool" where
  "nonneg3 r = (case r of (a, b, c) \<Rightarrow> 0 \<le> a \<and> 0 \<le> b \<and> 0 \<le> c)"

definition category_rows :: "slugdata \<Rightarrow> 'a list \<Rightarrow> nat \<Rightarrow> 'a list" where
  "category_rows data rows k =
     map fst (filter (\<lambda>(r, c). c = int k) (zip rows (SNP2SFS data)))"

definition total3 :: "(real \<times> real \<times> real) list \<Rightarrow> real \<times> real \<times> real" where
  "total3 rows =
     (sum_list (map fst rows), sum_list (map (fst \<circ> snd) rows),
      sum_list (map (snd \<circ> snd) rows))"

text \<open>The haploid marker set, when there is one, holds indices of SNPs.\<close>

definition haploid_ok :: "slugdata \<Rightarrow> nat \<Rightarrow> bool" where
  "haploid_ok data n =
     (case haploid_snps data of None \<Rightarrow> True | Some hs \<Rightarrow> list_all (\<lambda>i. i < n) hs)"

text \<open>The new value of \<open>F[k]\<close> when \<open>F\<close> is updated, if the step raises nothing.\<close>

definition F_new :: "slugdata \<Rightarrow> grow list \<Rightarrow> nat \<Rightarrow> npfloat option" where
  "F_new data post_g k =
     (case sfs_totals data post_g k of
        Inl err \<Rightarrow> None
      | Inr G \<Rightarrow>
          (case F_totals data post_g k G of
             Inl err \<Rightarrow> None
           | Inr G' \<Rightarrow> Some (clip (F_closed G') (Fin 0) (Fin 1))))"

text \<open>The values of \<open>post_c\<close> of the reads of read-group \<open>r\<close>.\<close>

definition group_reads :: "'a list \<Rightarrow> int list \<Rightarrow> nat \<Rightarrow> 'a list" where
  "group_reads xs read2rg r = map fst (filter (\<lambda>(x, g). g = int r) (zip xs read2rg))"

text \<open>Posteriors of the allele state given as real numbers, and the four weighted
  read counts of the error and bias update: a read with \<open>R = 1\<close> counts as an error with
  the posterior of the ancestral state when it is not flipped and of the derived state
  when it is flipped, and so on.\<close>

definition fin2 :: "real \<times> real \<Rightarrow> xrow" where
  "fin2 r = (case r of (a, c) \<Rightarrow> (Fin a, Fin c))"

definition nonneg2 :: "real \<times> real \<Rightarrow> bool" where
  "nonneg2 r = (case r of (a, c) \<Rightarrow> 0 \<le> a \<and> 0 \<le> c)"

definition read_total ::
  "(real \<times> real \<Rightarrow> bool \<Rightarrow> bool \<Rightarrow> real) \<Rightarrow> (real \<times> real) list \<Rightarrow> int list \<Rightarrow> bool list
     \<Rightarrow> real" where
  "read_total w px R Fl = sum_list (map (\<lambda>(x, r, f). w x (r \<noteq> 0) f) (zip px (zip R Fl)))"

definition err_w :: "real \<times> real \<Rightarrow> bool \<Rightarrow> bool \<Rightarrow> real" where
  "err_w x r f = (if r then (if f then snd x else fst x) else 0)"

definition noerr_w :: "real \<times> real \<Rightarrow> bool \<Rightarrow> bool \<Rightarrow> real" where
  "noerr_w x r f = (if \<not> r then (if f then snd x else fst x) else 0)"

definition bias_w :: "real \<times> real \<Rightarrow> bool \<Rightarrow> bool \<Rightarrow> real" where
  "bias_w x r f = (if \<not> r then (if f then fst x else snd x) else 0)"

definition nobias_w :: "real \<times> real \<Rightarrow> bool \<Rightarrow> bool \<Rightarrow> real" where
  "nobias_w x r f = (if r then (if f then fst x else snd x) else 0)"

text \<open>The genotype posterior that \<open>update_pars\<close> hands to the SFS update.\<close>

definition e_step_post_g :: "externals \<Rightarrow> slugdata \<Rightarrow> slugpars \<Rightarrow> gmat" where
  "e_step_post_g X data pars =
     posterior_g X
       (bwd_p_all_o_given_g X
          (bwd_p_one_o_given_g X
             (bwd_p_o_given_x X (READS data) (FLIPPED_READS data) (par_e pars) (par_b pars))
             (psi data) (par_cont pars) (READ2SNP data) (READ2RG data) (n_reads data))
          (READ2SNP data) (n_snps data))
       (fwd_p_g X data pars)"

text \<open>The current point at the end of each outer iteration that ends without \<open>break\<close>
  and without an exception, in the order of the iterations; the loop of \<open>squarem\<close> with
  its intermediate values recorded.\<close>

fun squarem_trace ::
  "externals \<Rightarrow> slugdata \<Rightarrow> controller \<Rightarrow> npfloat \<Rightarrow> nat \<Rightarrow> npfloat \<Rightarrow> slugpars
     \<Rightarrow> slugpars list" where
  "squarem_trace X data ctl min_step 0 max_step pars = []"
| "squarem_trace X data ctl min_step (Suc n) max_step pars =
     (case squarem_iter X data ctl min_step max_step pars of
        Inr (Continue p m) \<Rightarrow> p # squarem_trace X data ctl min_step n m p
      | _ \<Rightarrow> [])"

text \<open>The log-likelihoods of \<open>pars1\<close> and \<open>pars2\<close>, the two updates that an outer iteration
  from \<open>pars\<close> makes.\<close>

definition iter_lls :: "externals \<Rightarrow> slugdata \<Rightarrow> controller \<Rightarrow> slugpars \<Rightarrow> npfloat list" where
  "iter_lls X data ctl pars =
     (case update_pars X pars data ctl of
        Inl err \<Rightarrow> []
      | Inr (_, pars1) \<Rightarrow>
          ll pars1 #
          (case update_pars X pars1 data ctl of
             Inl err \<Rightarrow> []
           | Inr (_, pars2) \<Rightarrow> [ll pars2]))"

section \<open>Example inputs\<close>

text \<open>Ten SNPs of one SFS category, each homozygous ancestral with posterior 1, so that
  \<open>(G0, G1, G2) = (10, 0, 0)\<close>; and the same SNPs with a second category that no SNP is
  assigned to.\<close>

definition data_one_category :: slugdata where
  "data_one_category =
     \<lparr>n_sfs = 1, n_rgs = 1, n_reads = 0, n_snps = 10,
      SNP2SFS = [0, 0, 0, 0, 0, 0, 0, 0, 0, 0], READ2RG = [], READ2SNP = [], READS = [],
      FLIPPED_READS = [], psi = [], haploid_snps = None\<rparr>"

definition data_empty_category :: slugdata where
  "data_empty_category = data_one_category\<lparr>n_sfs := 2\<rparr>"

definition post_g_ancestral :: "(real \<times> real \<times> real) list" where
  "post_g_ancestral =
     [(1, 0, 0), (1, 0, 0), (1, 0, 0), (1, 0, 0), (1, 0, 0),
      (1, 0, 0), (1, 0, 0), (1, 0, 0), (1, 0, 0), (1, 0, 0)]"

text \<open>Collaborators that return empty arrays and a constant likelihood, and an optimiser
  that reports convergence at its start point; the examples below override single
  functions of it.\<close>

definition X_null :: externals where
  "X_null =
     \<lparr>fwd_p_g = (\<lambda>data pars. []),
      bwd_p_o_given_x = (\<lambda>R Fl e b. []),
      bwd_p_one_o_given_g = (\<lambda>bwd_x fwd_a fwd_c r2s r2rg n. []),
      bwd_p_all_o_given_g = (\<lambda>bwd_g1 r2s n. []),
      fwd_p_x_cont = (\<lambda>fwd_a r2s. []),
      fwd_p_x_nocont = (\<lambda>fwd_g r2s. []),
      fwd_p_x = (\<lambda>fwd_x_cont fwd_x_nocont fwd_c r2rg. []),
      posterior_g = (\<lambda>bwd_g fwd_g. []),
      posterior_c = (\<lambda>bwd_x fwd_x_nocont fwd_x_cont fwd_c r2rg. []),
      posterior_x = (\<lambda>bwd_x fwd_x_cont fwd_x_nocont fwd_c r2rg. []),
      calc_full_ll = (\<lambda>data pars. Fin 0),
      minimize = (\<lambda>f init bounds. Inr (init, True))\<rparr>"

text \<open>The genotype posterior of the example above, whatever the parameters.\<close>

definition X_ancestral :: externals where
  "X_ancestral = X_null\<lparr>posterior_g := (\<lambda>bwd_g fwd_g. map fin3 post_g_ancestral)\<rparr>"

definition pars_half :: slugpars where
  "pars_half =
     \<lparr>par_F = [Fin (1 / 2)], par_tau = [Fin (1 / 2)], par_cont = [Fin (1 / 10)],
      par_e = Fin (1 / 100), par_b = Fin (1 / 100),
      prev_F = [Fin (1 / 2)], prev_tau = [Fin (1 / 2)], prev_cont = [Fin (1 / 10)],
      prev_e = Fin (1 / 100), prev_b = Fin (1 / 100), ll = Fin 0, prev_ll = Fin 0\<rparr>"

text \<open>A controller that updates the SFS block only.\<close>

definition ctl_sfs :: controller where
  "ctl_sfs =
     \<lparr>do_update_ftau = True, update_F = True, update_cont = False, do_update_eb = False,
      update_bias = True, do_ll = False, copy_pars = True, n_iter = 1,
      squarem_min = Fin 1, squarem_max = Fin 1, squarem_mstep = Fin 4,
      param_tol = Fin (1 / 1000), ll_tol = Fin 0\<rparr>"

text \<open>One read in one read-group and no SFS category; a parameter vector for it; and a
  controller that updates the contamination block only, without the likelihood.\<close>

definition data_one_read :: slugdata where
  "data_one_read =
     \<lparr>n_sfs = 0, n_rgs = 1, n_reads = 1, n_snps = 1,
      SNP2SFS = [0], READ2RG = [0], READ2SNP = [0], READS = [1],
      FLIPPED_READS = [False], psi = [Fin (1 / 2)], haploid_snps = None\<rparr>"

definition pars_cont :: "real \<Rightarrow> slugpars" where
  "pars_cont c =
     \<lparr>par_F = [], par_tau = [], par_cont = [Fin c],
      par_e = Fin (1 / 100), par_b = Fin (1 / 100),
      prev_F = [], prev_tau = [], prev_cont = [Fin c],
      prev_e = Fin (1 / 100), prev_b = Fin (1 / 100), ll = Fin 0, prev_ll = Fin 0\<rparr>"

definition ctl_cont :: controller where
  "ctl_cont =
     \<lparr>do_update_ftau = False, update_F = True, update_cont = True, do_update_eb = False,
      update_bias = True, do_ll = False, copy_pars = False, n_iter = 2,
      squarem_min = Fin 1, squarem_max = Fin 1, squarem_mstep = Fin 4,
      param_tol = Fin (1 / 1000), ll_tol = Fin 0\<rparr>"

text \<open>Collaborators whose contamination posterior of the read is one fifth.\<close>

definition X_fifth :: externals where
  "X_fifth = X_null\<lparr>posterior_c := (\<lambda>bwd_x fwd_x_nocont fwd_x_cont fwd_c r2rg. [Fin (1 / 5)])\<rparr>"

text \<open>Collaborators for one read: the contamination posterior of the read is \<open>f\<close> of the
  current contamination rate and the log-likelihood is \<open>g\<close> of it.\<close>

definition first_cont :: "slugpars \<Rightarrow> npfloat" where
  "first_cont p = (case par_cont p of [] \<Rightarrow> Fin 0 | c # cs \<Rightarrow> c)"

definition X_cont_map :: "(npfloat \<Rightarrow> npfloat) \<Rightarrow> (npfloat \<Rightarrow> npfloat) \<Rightarrow> externals" where
  "X_cont_map f g =
     X_null\<lparr>posterior_c := (\<lambda>bwd_x fwd_x_nocont fwd_x_cont fwd_c r2rg. map f fwd_c),
            calc_full_ll := (\<lambda>data pars. g (first_cont pars))\<rparr>"

text \<open>The posterior is half the rate, and the posterior is the rate plus \<open>d\<close>; the
  log-likelihood is the rate.\<close>

definition X_halve :: externals where
  "X_halve = X_cont_map (\<lambda>c. fmul c (Fin (1 / 2))) (\<lambda>c. c)"

definition X_drift :: "real \<Rightarrow> externals" where
  "X_drift d = X_cont_map (\<lambda>c. fadd c (Fin d)) (\<lambda>c. c)"

text \<open>As \<open>X_halve\<close>, with a log-likelihood \<open>1 - c\<close> that is NaN at the rate 0.\<close>

definition X_halve_nan :: externals where
  "X_halve_nan =
     X_cont_map (\<lambda>c. fmul c (Fin (1 / 2))) (\<lambda>c. if c = Fin 0 then NaN else fsub (Fin 1) c)"

text \<open>A controller for \<open>squarem\<close> that updates the contamination block and the
  likelihood.\<close>

definition ctl_squarem :: controller where
  "ctl_squarem =
     \<lparr>do_update_ftau = False, update_F = True, update_cont = True, do_update_eb = False,
      update_bias = True, do_ll = True, copy_pars = True, n_iter = 1,
      squarem_min = Fin 1, squarem_max = Fin 2, squarem_mstep = Fin 4,
      param_tol = Fin (1 / 1000), ll_tol = Fin 0\<rparr>"

text \<open>The start of the examples: the rate \<open>c\<close> with the log-likelihood \<open>l\<close>; and the
  current point with the rate \<open>c\<close> that an update has made from the rate \<open>c0\<close>.\<close>

definition pars_start :: "real \<Rightarrow> npfloat \<Rightarrow> slugpars" where
  "pars_start c l = (pars_cont c)\<lparr>ll := l\<rparr>"

definition pars_after :: "real \<Rightarrow> real \<Rightarrow> npfloat \<Rightarrow> npfloat \<Rightarrow> slugpars" where
  "pars_after c0 c l l0 =
     (pars_cont c)\<lparr>prev_cont := [Fin c0], ll := l, prev_ll := l0\<rparr>"


section \<open>Arithmetic of the number model\<close>

lemma foldl_fadd_Fin: "foldl fadd (Fin a) (map Fin xs) = Fin (a + sum_list xs)"
  by (induction xs arbitrary: a) (simp_all add: add.assoc)

lemma np_sum_Fin: "np_sum (map Fin xs) = Fin (sum_list xs)"
  by (simp add: np_sum_def foldl_fadd_Fin)

lemma clip_Fin: "clip (Fin x) (Fin 0) (Fin 1) = Fin (max 0 (min 1 x))"
  by (simp add: clip_def fmaximum_def fminimum_def isnan_def max_def min_def)

lemma clip_idem: "clip (clip x (Fin 0) (Fin 1)) (Fin 0) (Fin 1) = clip x (Fin 0) (Fin 1)"
  by (cases x) (simp_all add: clip_def fmaximum_def fminimum_def isnan_def)

lemma eps300_pos: "0 < eps300"
  by (simp add: eps300_def)

section \<open>The loops\<close>

lemma for_range_snoc:
  "for_range body (ks @ [k]) s =
     (case for_range body ks s of Inl err \<Rightarrow> Inl err | Inr s' \<Rightarrow> body k s')"
  by (induction ks arbitrary: s) (auto split: sum.splits)

lemma for_range_total:
  assumes "\<And>k s. k \<in> set ks \<Longrightarrow> \<exists>s'. body k s = Inr s'"
  shows "\<exists>s'. for_range body ks s = Inr s'"
  using assms
proof (induction ks arbitrary: s)
  case Nil
  then show ?case by simp
next
  case (Cons k ks)
  from Cons.prems[of k s] obtain s1 where "body k s = Inr s1" by auto
  moreover from Cons.IH[of s1] Cons.prems obtain s2 where "for_range body ks s1 = Inr s2"
    by auto
  ultimately show ?case by simp
qed


section \<open>The closed-form SFS update on real-valued posteriors\<close>

lemma bool_index_fin3:
  assumes "length (SNP2SFS data) = length pg"
  shows "bool_index (map fin3 pg) (sfs_mask data k) = Inr (map fin3 (category_rows data pg k))"
proof -
  have "map fst (filter snd (zip (map fin3 pg) (map (\<lambda>c. c = int k) S)))
      = map fin3 (map fst (filter (\<lambda>(r, c). c = int k) (zip pg S)))"
    if "length S = length pg" for S
    using that by (induction S pg rule: list_induct2) auto
  with assms show ?thesis
    by (simp add: bool_index_def sfs_mask_def category_rows_def)
qed

lemma sum_rows3_fin3: "sum_rows3 (map fin3 rows) = fin3 (total3 rows)"
proof -
  have "map fst (map fin3 rows) = map Fin (map fst rows)"
    "map (fst \<circ> snd) (map fin3 rows) = map Fin (map (fst \<circ> snd) rows)"
    "map (snd \<circ> snd) (map fin3 rows) = map Fin (map (snd \<circ> snd) rows)"
    by (auto simp: fin3_def)
  then show ?thesis
    by (simp add: sum_rows3_def total3_def fin3_def np_sum_Fin del: map_map)
qed

lemma sfs_totals_fin3:
  assumes "length (SNP2SFS data) = length pg"
  shows "sfs_totals data (map fin3 pg) k = Inr (fin3 (total3 (category_rows data pg k)))"
  by (simp add: sfs_totals_def bool_index_fin3[OF assms] sum_rows3_fin3)

lemma total3_nonneg:
  assumes "list_all nonneg3 rows"
  shows "nonneg3 (total3 rows)"
proof -
  have "0 \<le> sum_list (map f rows)" if "\<And>r. nonneg3 r \<Longrightarrow> 0 \<le> f r"
    for f :: "real \<times> real \<times> real \<Rightarrow> real"
    using assms that by (induction rows) auto
  then show ?thesis
    by (auto simp: total3_def nonneg3_def)
qed

lemma category_rows_nonneg:
  assumes "list_all nonneg3 pg"
  shows "list_all nonneg3 (category_rows data pg k)"
  using assms
  by (auto simp: category_rows_def list_all_iff dest!: set_zip_leftD)

lemma tau_closed_fin3:
  assumes "nonneg3 (G0, G1, G2)"
  shows "tau_closed (fin3 (G0, G1, G2))
       = Fin (if G0 + G1 + G2 = 0 then 0 else (G1 / 2 + G2) / (G0 + G1 + G2))"
  using assms by (auto simp: tau_closed_def fin3_def nonneg3_def)

lemma F_closed_fin3:
  assumes "nonneg3 (G0, G1, G2)"
  shows "F_closed (fin3 (G0, G1, G2))
       = Fin (2 * G0 / (2 * G0 + G1 + eps300) - G1 / (2 * G2 + G1 + eps300))"
proof -
  have "2 * G0 + G1 + eps300 \<noteq> 0" "2 * G2 + G1 + eps300 \<noteq> 0"
    using assms eps300_pos by (auto simp: nonneg3_def)
  then show ?thesis
    by (simp add: F_closed_def fin3_def fsub_def)
qed

lemma F_new_clipped:
  assumes "F_new data post_g k = Some x"
  shows "clip x (Fin 0) (Fin 1) = x"
proof -
  from assms obtain G where "x = clip (F_closed G) (Fin 0) (Fin 1)"
    by (auto simp: F_new_def split: sum.splits)
  then show ?thesis by (simp add: clip_idem)
qed

lemma update_ftau_step_result:
  assumes "update_ftau_step data post_g upd_F k (F, tau) = Inr (F', tau')"
  shows "(case sfs_totals data post_g k of Inl err \<Rightarrow> False
          | Inr G \<Rightarrow> tau' = tau[k := tau_closed G])
       \<and> (if upd_F
           then (case F_new data post_g k of None \<Rightarrow> False
                 | Some x \<Rightarrow> F' = (map (\<lambda>x. clip x (Fin 0) (Fin 1)) F)[k := x])
           else F' = map (\<lambda>x. clip x (Fin 0) (Fin 1)) F)"
  using assms
  by (auto simp: update_ftau_step_def F_new_def Let_def map_update clip_idem
      split: sum.splits if_splits)

lemma update_ftau_loop:
  assumes "for_range (update_ftau_step data post_g upd_F) [0..<n] (F, tau) = Inr (F', tau')"
  shows "length tau' = length tau \<and> length F' = length F
     \<and> (\<forall>k<n. k < length tau \<longrightarrow>
           (case sfs_totals data post_g k of Inl err \<Rightarrow> False
            | Inr G \<Rightarrow> tau' ! k = tau_closed G))
     \<and> (\<forall>k<n. k < length F \<longrightarrow> upd_F \<longrightarrow> F_new data post_g k = Some (F' ! k))
     \<and> (\<forall>k<length F. 0 < n \<longrightarrow> (\<not> upd_F \<or> n \<le> k) \<longrightarrow> F' ! k = clip (F ! k) (Fin 0) (Fin 1))"
  using assms
proof (induction n arbitrary: F' tau')
  case 0
  then show ?case by simp
next
  case (Suc n)
  from Suc.prems(1) obtain F1 tau1 where
    mid: "for_range (update_ftau_step data post_g upd_F) [0..<n] (F, tau) = Inr (F1, tau1)"
    and last: "update_ftau_step data post_g upd_F n (F1, tau1) = Inr (F', tau')"
    by (auto simp: for_range_snoc split: sum.splits)
  note ih = Suc.IH[OF mid]
  note st = update_ftau_step_result[OF last]
  have len: "length tau' = length tau" "length F' = length F"
    using ih st by (auto split: sum.splits option.splits if_splits)
  have t: "case sfs_totals data post_g k of Inl err \<Rightarrow> False
            | Inr G \<Rightarrow> tau' ! k = tau_closed G" if "k < Suc n" "k < length tau" for k
    using ih st that by (auto simp: nth_list_update less_Suc_eq split: sum.splits)
  have clipped: "clip (F1 ! k) (Fin 0) (Fin 1) = F1 ! k" if "k < n" "k < length F" "upd_F" for k
  proof -
    from ih that have "F_new data post_g k = Some (F1 ! k)" by auto
    then show ?thesis by (rule F_new_clipped)
  qed
  have f: "F_new data post_g k = Some (F' ! k)" if "k < Suc n" "k < length F" "upd_F" for k
  proof (cases "k = n")
    case True
    with st that ih show ?thesis by (auto split: option.splits)
  next
    case False
    with that have kn: "k < n" by simp
    with ih that have "F_new data post_g k = Some (F1 ! k)" by auto
    moreover have "F' ! k = F1 ! k"
      using st that False ih clipped[OF kn that(2,3)] by (auto split: option.splits)
    ultimately show ?thesis by simp
  qed
  have c: "F' ! k = clip (F ! k) (Fin 0) (Fin 1)"
    if "k < length F" "\<not> upd_F \<or> Suc n \<le> k" for k
  proof (cases "n = 0")
    case True
    with mid have "F1 = F" by simp
    with st that True show ?thesis by (auto split: option.splits if_splits)
  next
    case False
    with ih that have "F1 ! k = clip (F ! k) (Fin 0) (Fin 1)" by auto
    with st that ih show ?thesis by (auto simp: clip_idem split: option.splits if_splits)
  qed
  from len t f c show ?case by blast
qed


section \<open>Claim C5: the closed-form update of \<open>tau\<close> and \<open>F\<close>\<close>

lemma bool_index_map:
  assumes "length bm = length xs"
  shows "bool_index (map f xs) bm = Inr (map f (map fst (filter snd (zip xs bm))))"
proof -
  have "map fst (filter snd (zip (map f xs) bm)) = map f (map fst (filter snd (zip xs bm)))"
    using assms by (induction bm xs rule: list_induct2) auto
  with assms show ?thesis by (simp add: bool_index_def)
qed

lemma selected_nonneg:
  assumes "list_all nonneg3 pg"
  shows "list_all nonneg3 (map fst (filter snd (zip pg bm)))"
  using assms by (auto simp: list_all_iff dest!: set_zip_leftD)

lemma F_totals_fin3:
  assumes len: "length (SNP2SFS data) = length pg"
    and hap: "haploid_ok data (length pg)"
    and nn: "list_all nonneg3 pg"
    and G: "nonneg3 g"
  shows "\<exists>g'. F_totals data (map fin3 pg) k (fin3 g) = Inr (fin3 g') \<and> nonneg3 g'
           \<and> (haploid_snps data = None \<longrightarrow> g' = g)"
proof (cases "haploid_snps data")
  case None
  with G show ?thesis by (intro exI[of _ g]) (simp add: F_totals_def)
next
  case (Some hs)
  with hap have "\<forall>i\<in>set hs. i < length pg" by (simp add: haploid_ok_def list_all_iff)
  with len obtain ix1 where ix1: "clear_haploid (sfs_mask data k) hs = Inr ix1"
    "length ix1 = length pg"
    by (auto simp: clear_haploid_def sfs_mask_def)
  show ?thesis
  proof (cases "\<forall>m\<in>set ix1. \<not> m")
    case True
    with Some ix1 G show ?thesis by (intro exI[of _ g]) (auto simp: F_totals_def)
  next
    case False
    let ?rows = "map fst (filter snd (zip pg ix1))"
    have bi: "bool_index (map fin3 pg) ix1 = Inr (map fin3 ?rows)"
      using ix1(2) by (rule bool_index_map)
    from False have ex: "\<not> (\<forall>m\<in>set ix1. \<not> m)" .
    have "F_totals data (map fin3 pg) k (fin3 g) = Inr (fin3 (total3 ?rows))"
      unfolding F_totals_def Some option.case ix1(1) sum.case if_not_P[OF ex] bi
      by (simp only: sum_rows3_fin3)
    moreover have "nonneg3 (total3 ?rows)"
      by (rule total3_nonneg[OF selected_nonneg[OF nn]])
    ultimately show ?thesis using Some by (intro exI[of _ "total3 ?rows"]) simp
  qed
qed

lemma update_ftau_step_total:
  assumes len: "length (SNP2SFS data) = length pg"
    and hap: "haploid_ok data (length pg)"
    and nn: "list_all nonneg3 pg"
  shows "\<exists>s'. update_ftau_step data (map fin3 pg) upd_F k s = Inr s'"
proof -
  obtain F tau where s: "s = (F, tau)" by (cases s)
  let ?g = "total3 (category_rows data pg k)"
  have g: "nonneg3 ?g"
    by (rule total3_nonneg[OF category_rows_nonneg[OF nn]])
  from F_totals_fin3[OF len hap nn g, of k] obtain g' where
    "F_totals data (map fin3 pg) k (fin3 ?g) = Inr (fin3 g')" by auto
  then show ?thesis
    by (simp add: s update_ftau_step_def sfs_totals_fin3[OF len] Let_def)
qed

lemma F_new_fin3:
  assumes len: "length (SNP2SFS data) = length pg"
    and nn: "list_all nonneg3 pg"
    and hap: "haploid_snps data = None"
    and g: "total3 (category_rows data pg k) = (G0, G1, G2)"
  shows "F_new data (map fin3 pg) k =
     Some (Fin (max 0 (min 1 (2 * G0 / (2 * G0 + G1 + eps300) - G1 / (2 * G2 + G1 + eps300)))))"
proof -
  have "nonneg3 (G0, G1, G2)"
    using total3_nonneg[OF category_rows_nonneg[OF nn], of data k] g by simp
  then show ?thesis
    by (simp add: F_new_def sfs_totals_fin3[OF len] g F_totals_def hap F_closed_fin3 clip_Fin)
qed

lemma update_ftau_real:
  assumes shape: "length old_F = n_sfs data" "length old_tau = n_sfs data"
      "length (SNP2SFS data) = length pg" "haploid_ok data (length pg)"
    and nn: "list_all nonneg3 pg"
  shows "\<exists>F tau. update_ftau old_F old_tau data (map fin3 pg) upd_F = Inr (F, tau)
     \<and> length F = n_sfs data \<and> length tau = n_sfs data
     \<and> (\<forall>k<n_sfs data.
          (case total3 (category_rows data pg k) of (G0, G1, G2) \<Rightarrow>
             tau ! k = Fin (if G0 + G1 + G2 = 0 then 0 else (G1 / 2 + G2) / (G0 + G1 + G2))
           \<and> (upd_F \<and> haploid_snps data = None \<longrightarrow>
                F ! k = Fin (max 0 (min 1 (2 * G0 / (2 * G0 + G1 + eps300)
                                           - G1 / (2 * G2 + G1 + eps300)))))))
     \<and> (n_sfs data = 1 \<and> total3 (category_rows data pg 0) = (10, 0, 0)
          \<and> upd_F \<and> haploid_snps data = None \<longrightarrow>
        tau = [Fin 0] \<and> F = [Fin (2 * 10 / (2 * 10 + eps300))]
          \<and> \<bar>1 - 2 * 10 / (2 * 10 + eps300)\<bar> < eps300)"
proof -
  let ?pg = "map fin3 pg"
  let ?n = "n_sfs data"
  have "\<exists>s'. for_range (update_ftau_step data ?pg upd_F) [0..<?n] (old_F, old_tau) = Inr s'"
    by (rule for_range_total) (rule update_ftau_step_total[OF shape(3,4) nn])
  then obtain F tau where
    run: "for_range (update_ftau_step data ?pg upd_F) [0..<?n] (old_F, old_tau) = Inr (F, tau)"
    by (cases) auto
  then have res: "update_ftau old_F old_tau data ?pg upd_F = Inr (F, tau)"
    using shape(1,2) by (simp add: update_ftau_def assign_all_def)
  note inv = update_ftau_loop[OF run]
  have len: "length F = ?n" "length tau = ?n"
    using inv shape(1,2) by auto
  have per: "(case total3 (category_rows data pg k) of (G0, G1, G2) \<Rightarrow>
             tau ! k = Fin (if G0 + G1 + G2 = 0 then 0 else (G1 / 2 + G2) / (G0 + G1 + G2))
           \<and> (upd_F \<and> haploid_snps data = None \<longrightarrow>
                F ! k = Fin (max 0 (min 1 (2 * G0 / (2 * G0 + G1 + eps300)
                                           - G1 / (2 * G2 + G1 + eps300))))))"
    if k: "k < ?n" for k
  proof -
    obtain G0 G1 G2 where g: "total3 (category_rows data pg k) = (G0, G1, G2)"
      by (cases "total3 (category_rows data pg k)")
    have nng: "nonneg3 (G0, G1, G2)"
      using total3_nonneg[OF category_rows_nonneg[OF nn], of data k] g by simp
    from inv k shape(2) have
      "case sfs_totals data ?pg k of Inl err \<Rightarrow> False | Inr G \<Rightarrow> tau ! k = tau_closed G"
      by auto
    then have t: "tau ! k = Fin (if G0 + G1 + G2 = 0 then 0 else (G1 / 2 + G2) / (G0 + G1 + G2))"
      by (simp add: sfs_totals_fin3[OF shape(3)] g tau_closed_fin3[OF nng])
    have f: "F ! k = Fin (max 0 (min 1 (2 * G0 / (2 * G0 + G1 + eps300)
                                           - G1 / (2 * G2 + G1 + eps300))))"
      if "upd_F" "haploid_snps data = None"
    proof -
      from inv k shape(1) that have "F_new data ?pg k = Some (F ! k)" by auto
      then show ?thesis
        by (simp add: F_new_fin3[OF shape(3) nn that(2) g])
    qed
    from t f show ?thesis by (simp add: g)
  qed
  have scen: "tau = [Fin 0] \<and> F = [Fin (2 * 10 / (2 * 10 + eps300))]
          \<and> \<bar>1 - 2 * 10 / (2 * 10 + eps300)\<bar> < eps300"
    if h: "?n = 1" "total3 (category_rows data pg 0) = (10, 0, 0)" "upd_F"
      "haploid_snps data = None"
  proof -
    from per[of 0] h have "tau ! 0 = Fin 0" "F ! 0 = Fin (max 0 (min 1 (20 / (20 + eps300))))"
      by auto
    moreover have "0 \<le> 20 / (20 + eps300)" "20 / (20 + eps300) \<le> 1"
      using eps300_pos by simp_all
    moreover have "tau = [tau ! 0]"
      using len h(1) by (cases tau) simp_all
    moreover have "F = [F ! 0]"
      using len h(1) by (cases F) simp_all
    moreover have "\<bar>1 - 20 / (20 + eps300)\<bar> < eps300"
    proof -
      have "1 - 20 / (20 + eps300) = eps300 / (20 + eps300)"
        using eps300_pos by (simp add: field_simps)
      moreover have "eps300 / (20 + eps300) < eps300 / 1"
        using eps300_pos by (intro divide_strict_left_mono) simp_all
      moreover have "0 \<le> eps300 / (20 + eps300)"
        using eps300_pos by simp
      ultimately show ?thesis by simp
    qed
    ultimately show ?thesis by (simp add: max_def min_def)
  qed
  have all: "\<forall>k<n_sfs data.
          (case total3 (category_rows data pg k) of (G0, G1, G2) \<Rightarrow>
             tau ! k = Fin (if G0 + G1 + G2 = 0 then 0 else (G1 / 2 + G2) / (G0 + G1 + G2))
           \<and> (upd_F \<and> haploid_snps data = None \<longrightarrow>
                F ! k = Fin (max 0 (min 1 (2 * G0 / (2 * G0 + G1 + eps300)
                                           - G1 / (2 * G2 + G1 + eps300))))))"
    by (intro allI impI) (rule per)
  have sc: "n_sfs data = 1 \<and> total3 (category_rows data pg 0) = (10, 0, 0)
          \<and> upd_F \<and> haploid_snps data = None \<longrightarrow>
        tau = [Fin 0] \<and> F = [Fin (2 * 10 / (2 * 10 + eps300))]
          \<and> \<bar>1 - 2 * 10 / (2 * 10 + eps300)\<bar> < eps300"
    by (intro impI, elim conjE) (rule scen)
  show ?thesis
    apply (rule exI[of _ F])
    apply (rule exI[of _ tau])
    apply (intro conjI)
        apply (rule res)
       apply (rule len(1))
      apply (rule len(2))
     apply (rule all)
    apply (rule sc)
    done
qed

text \<open>
  Claim C5. For posteriors that are non-negative numbers and arrays of the shapes of the
  data, the closed-form \<open>update_ftau\<close> raises nothing and, for every SFS category \<open>k\<close>,
  sets \<open>tau[k] = (G1/2 + G2) / (G0 + G1 + G2)\<close> from the totals over the SNPs of the
  category, or \<open>tau[k] = 0\<close> when the denominator is zero, as it is for a category
  without SNPs. Where \<open>F\<close> is updated and no haploid set is configured, \<open>F[k]\<close> is
  \<open>2 G0 / (2 G0 + G1 + eps) - G1 / (2 G2 + G1 + eps)\<close> clipped to \<open>[0, 1]\<close>. With one
  category and \<open>(G0, G1, G2) = (10, 0, 0)\<close> the result is \<open>tau = 0\<close> and
  \<open>F = 2 G0 / (2 G0 + eps)\<close>, which is within \<open>eps\<close> of 1.
\<close>

theorem update_ftau_closed_form:
  assumes shape: "length old_F = n_sfs data" "length old_tau = n_sfs data"
      "length (SNP2SFS data) = length pg" "haploid_ok data (length pg)"
    and nn: "list_all nonneg3 pg"
  shows "\<exists>F tau. update_ftau old_F old_tau data (map fin3 pg) upd_F = Inr (F, tau)
     \<and> length F = n_sfs data \<and> length tau = n_sfs data
     \<and> (\<forall>k<n_sfs data.
          (case total3 (category_rows data pg k) of (G0, G1, G2) \<Rightarrow>
             tau ! k = Fin (if G0 + G1 + G2 = 0 then 0 else (G1 / 2 + G2) / (G0 + G1 + G2))
           \<and> (upd_F \<and> haploid_snps data = None \<longrightarrow>
                F ! k = Fin (max 0 (min 1 (2 * G0 / (2 * G0 + G1 + eps300)
                                           - G1 / (2 * G2 + G1 + eps300)))))))
     \<and> (n_sfs data = 1 \<and> total3 (category_rows data pg 0) = (10, 0, 0)
          \<and> upd_F \<and> haploid_snps data = None \<longrightarrow>
        tau = [Fin 0] \<and> F = [Fin (2 * 10 / (2 * 10 + eps300))]
          \<and> \<bar>1 - 2 * 10 / (2 * 10 + eps300)\<bar> < eps300)"
  using assms by (rule update_ftau_real)

theorem update_ftau_closed_form_witness:
  "update_ftau [Fin (1 / 2)] [Fin (1 / 2)] data_one_category (map fin3 post_g_ancestral) True
     = Inr ([Fin (2 * 10 / (2 * 10 + eps300))], [Fin 0])
   \<and> (\<exists>F tau. update_ftau [Fin (1 / 2), Fin (1 / 2)] [Fin (1 / 2), Fin (1 / 2)]
          data_empty_category (map fin3 post_g_ancestral) True = Inr (F, tau)
        \<and> category_rows data_empty_category post_g_ancestral 1 = [] \<and> tau ! 1 = Fin 0)"
proof -
  have nn: "list_all nonneg3 post_g_ancestral"
    by (simp add: post_g_ancestral_def nonneg3_def)
  have a: "length [Fin (1 / 2)] = n_sfs data_one_category"
    "length (SNP2SFS data_one_category) = length post_g_ancestral"
    "haploid_ok data_one_category (length post_g_ancestral)"
    "haploid_snps data_one_category = None"
    by (simp_all add: data_one_category_def post_g_ancestral_def haploid_ok_def)
  have b: "length [Fin (1 / 2), Fin (1 / 2)] = n_sfs data_empty_category"
    "length (SNP2SFS data_empty_category) = length post_g_ancestral"
    "haploid_ok data_empty_category (length post_g_ancestral)"
    "n_sfs data_empty_category = 2"
    by (simp_all add: data_empty_category_def data_one_category_def post_g_ancestral_def
        haploid_ok_def)
  have g0: "total3 (category_rows data_one_category post_g_ancestral 0) = (10, 0, 0)"
    by (simp add: total3_def category_rows_def data_one_category_def post_g_ancestral_def)
  have e1: "category_rows data_empty_category post_g_ancestral 1 = []"
    by (simp add: category_rows_def data_empty_category_def data_one_category_def
        post_g_ancestral_def)
  have n1: "n_sfs data_one_category = 1"
    by (simp add: data_one_category_def)
  from update_ftau_closed_form[OF a(1) a(1) a(2) a(3) nn, of True] g0 a(4) n1
  have first: "update_ftau [Fin (1 / 2)] [Fin (1 / 2)] data_one_category
      (map fin3 post_g_ancestral) True = Inr ([Fin (2 * 10 / (2 * 10 + eps300))], [Fin 0])"
    by auto
  from update_ftau_closed_form[OF b(1) b(1) b(2) b(3) nn, of True] obtain F tau where
    r: "update_ftau [Fin (1 / 2), Fin (1 / 2)] [Fin (1 / 2), Fin (1 / 2)]
          data_empty_category (map fin3 post_g_ancestral) True = Inr (F, tau)"
    and k: "\<forall>k<n_sfs data_empty_category.
          (case total3 (category_rows data_empty_category post_g_ancestral k) of
            (G0, G1, G2) \<Rightarrow>
             tau ! k = Fin (if G0 + G1 + G2 = 0 then 0 else (G1 / 2 + G2) / (G0 + G1 + G2))
           \<and> (True \<and> haploid_snps data_empty_category = None \<longrightarrow>
                F ! k = Fin (max 0 (min 1 (2 * G0 / (2 * G0 + G1 + eps300)
                                           - G1 / (2 * G2 + G1 + eps300))))))"
    by blast
  have e1': "category_rows data_empty_category post_g_ancestral (Suc 0) = []"
    using e1 by simp
  from k b(4) have "tau ! 1 = Fin 0"
    by (auto simp: e1' total3_def dest!: spec[of _ 1])
  with r e1 first show ?thesis by blast
qed


section \<open>Claim C8: the contamination update\<close>

lemma for_range_set:
  assumes "n \<le> length c0"
  shows "for_range (\<lambda>r c. Inr (c[r := f r])) [0..<n] c0 = Inr (map f [0..<n] @ drop n c0)"
  using assms
proof (induction n)
  case 0
  then show ?case by simp
next
  case (Suc n)
  then have n: "n < length c0" by simp
  have "(map f [0..<n] @ drop n c0)[n := f n] = map f [0..<n] @ (drop n c0)[0 := f n]"
    by (simp add: list_update_append)
  also have "(drop n c0)[0 := f n] = f n # drop (Suc n) c0"
    using n by (simp add: Cons_nth_drop_Suc[symmetric])
  finally show ?case
    using Suc n by (simp add: for_range_snoc)
qed

lemma bool_index_group:
  assumes "length read2rg = length xs"
  shows "bool_index xs (map (\<lambda>g. g = int r) read2rg) = Inr (group_reads xs read2rg r)"
proof -
  have "map fst (filter snd (zip xs (map (\<lambda>g. g = int r) read2rg)))
      = map fst (filter (\<lambda>(x, g). g = int r) (zip xs read2rg))"
    using assms by (induction read2rg xs rule: list_induct2) auto
  with assms show ?thesis by (simp add: bool_index_def group_reads_def)
qed

lemma update_c_eq:
  assumes "length read2rg = length post_c"
  shows "update_c post_c read2rg n
       = Inr (map (\<lambda>r. np_mean (group_reads post_c read2rg r)) [0..<n])"
proof -
  have "update_c post_c read2rg n
      = for_range (\<lambda>r c. Inr (c[r := np_mean (group_reads post_c read2rg r)])) [0..<n]
          (replicate n NaN)"
    by (simp add: update_c_def bool_index_group[OF assms])
  then show ?thesis by (simp add: for_range_set)
qed

lemma group_reads_map: "group_reads (map f xs) read2rg r = map f (group_reads xs read2rg r)"
proof -
  have "map fst (filter (\<lambda>(x, g). g = int r) (zip (map f xs) gs))
      = map f (map fst (filter (\<lambda>(x, g). g = int r) (zip xs gs)))" for gs
    by (induction xs arbitrary: gs) (auto simp: zip_Cons1 split: list.splits)
  then show ?thesis by (simp add: group_reads_def)
qed

lemma np_mean_Fin:
  "np_mean (map Fin xs) = (if xs = [] then NaN else Fin (sum_list xs / real (length xs)))"
  by (simp add: np_mean_def np_sum_Fin signed_inf_def)

lemma update_c_real:
  assumes "length read2rg = length pc"
  shows "update_c (map Fin pc) read2rg n
       = Inr (map (\<lambda>r. let grp = group_reads pc read2rg r in
                         if grp = [] then NaN else Fin (sum_list grp / real (length grp)))
                [0..<n])"
  using assms by (simp add: update_c_eq group_reads_map np_mean_Fin Let_def)

text \<open>
  Claim C8. For a read-group with at least one read, \<open>update_c\<close> returns the mean of
  \<open>post_c\<close> over the reads of the group (\<open>update_c_real\<close>). For a read-group without
  reads the claim asks for a fallback value that is not NaN; the code takes the mean of
  the empty selection, which is NaN, and raises nothing. The two reads below both belong
  to read-group 0, and read-group 1 of the two groups is empty.
\<close>

theorem update_c_empty_group_nan:
  "update_c [Fin (1 / 10), Fin (3 / 10)] [0, 0] 2 = Inr [Fin (1 / 5), NaN]
   \<and> group_reads [1 / 10, 3 / 10 :: real] [0, 0] 1 = []"
proof -
  have "length [0, 0 :: int] = length [1 / 10, 3 / 10 :: real]" by simp
  from update_c_real[OF this, of 2]
  have "update_c [Fin (1 / 10), Fin (3 / 10)] [0, 0] 2 = Inr [Fin (1 / 5), NaN]"
    by (simp add: group_reads_def numeral_2_eq_2 Let_def)
  then show ?thesis by (simp add: group_reads_def)
qed


section \<open>Claim C7: the error and bias update\<close>

text \<open>The sum of a column over the selected rows, and the sum of two such sums over
  masks that are computed from the read arrays.\<close>

lemma sum_col_fin2:
  assumes "length bm = length px" and c: "\<And>x. col (fin2 x) = Fin (colr x)"
  shows "sum_col col (map fin2 px) bm
       = Inr (Fin (sum_list (map (\<lambda>(x, m). if m then colr x else 0) (zip px bm))))"
proof -
  have "map col (map fin2 (map fst (filter snd (zip px bm))))
      = map Fin (map colr (map fst (filter snd (zip px bm))))"
    by (simp add: c)
  moreover have "sum_list (map colr (map fst (filter snd (zip px bm))))
      = sum_list (map (\<lambda>(x, m). if m then colr x else 0) (zip px bm))"
    using assms(1) by (induction bm px rule: list_induct2) auto
  ultimately show ?thesis
    using assms(1) by (simp add: sum_col_def bool_index_map np_sum_Fin del: map_map)
qed

lemma sum_two_fin2:
  assumes "length m1 = length px" "length m2 = length px"
    and "\<And>x. col1 (fin2 x) = Fin (c1 x)" "\<And>x. col2 (fin2 x) = Fin (c2 x)"
  shows "sum_two (map fin2 px) m1 col1 m2 col2
       = Inr (Fin (sum_list (map (\<lambda>(x, m). if m then c1 x else 0) (zip px m1))
                 + sum_list (map (\<lambda>(x, m). if m then c2 x else 0) (zip px m2))))"
  using sum_col_fin2[of m1 px col1 c1] sum_col_fin2[of m2 px col2 c2] assms
  by (simp add: sum_two_def)

lemma masked_sums:
  fixes c1 c2 :: "'a \<Rightarrow> real"
  assumes "length R = length px" "length Fl = length px"
  shows "sum_list (map (\<lambda>(x, m). if m then c1 x else 0)
                    (zip px (map (\<lambda>(r, f). P r f \<and> \<not> f) (zip (map (\<lambda>x. x \<noteq> 0) R) Fl))))
       + sum_list (map (\<lambda>(x, m). if m then c2 x else 0)
                    (zip px (map (\<lambda>(r, f). P r f \<and> f) (zip (map (\<lambda>x. x \<noteq> 0) R) Fl))))
       = sum_list (map (\<lambda>(x, r, f). if P (r \<noteq> 0) f then (if f then c2 x else c1 x) else 0)
                    (zip px (zip R Fl)))"
  using assms(1) assms(2)[symmetric] by (induction R px Fl rule: list_induct3) auto

lemma fst_fin2: "fst (fin2 x) = Fin (fst x)" and snd_fin2: "snd (fin2 x) = Fin (snd x)"
  by (cases x; simp add: fin2_def)+

lemma sum_two_reads:
  assumes len: "length R = length px" "length Fl = length px"
    and c: "\<And>x. col1 (fin2 x) = Fin (c1 x)" "\<And>x. col2 (fin2 x) = Fin (c2 x)"
  shows "sum_two (map fin2 px)
           (map (\<lambda>(r, f). P r f \<and> \<not> f) (zip (map (\<lambda>x. x \<noteq> 0) R) Fl)) col1
           (map (\<lambda>(r, f). P r f \<and> f) (zip (map (\<lambda>x. x \<noteq> 0) R) Fl)) col2
       = Inr (Fin (sum_list (map (\<lambda>(x, r, f). if P (r \<noteq> 0) f then (if f then c2 x else c1 x) else 0)
                    (zip px (zip R Fl)))))"
proof -
  have l: "length (map (\<lambda>(r, f). P r f \<and> \<not> f) (zip (map (\<lambda>x. x \<noteq> 0) R) Fl)) = length px"
    "length (map (\<lambda>(r, f). P r f \<and> f) (zip (map (\<lambda>x. x \<noteq> 0) R) Fl)) = length px"
    using len by simp_all
  show ?thesis
    unfolding sum_two_fin2[where ?col1.0 = col1 and ?c1.0 = c1 and ?col2.0 = col2
        and ?c2.0 = c2, OF l c] masked_sums[OF len] ..
qed

lemma eb_count_fin2:
  assumes len: "length R = length px" "length Fl = length px"
  shows "eb_count (map fin2 px) R Fl =
     Inr \<lparr>errors = Fin (read_total err_w px R Fl),
          not_errors = Fin (read_total noerr_w px R Fl),
          bias = Fin (read_total bias_w px R Fl),
          not_bias = Fin (read_total nobias_w px R Fl)\<rparr>"
proof -
  note s = sum_two_reads[OF len]
  have e: "sum_two (map fin2 px)
           (map (\<lambda>(r, f). r \<and> \<not> f) (zip (map (\<lambda>x. x \<noteq> 0) R) Fl)) fst
           (map (\<lambda>(r, f). r \<and> f) (zip (map (\<lambda>x. x \<noteq> 0) R) Fl)) snd
         = Inr (Fin (read_total err_w px R Fl))"
    using s[of fst fst snd snd "\<lambda>r f. r"]
    by (simp add: fst_fin2 snd_fin2 read_total_def err_w_def)
  have ne: "sum_two (map fin2 px)
           (map (\<lambda>(r, f). \<not> r \<and> \<not> f) (zip (map (\<lambda>x. x \<noteq> 0) R) Fl)) fst
           (map (\<lambda>(r, f). \<not> r \<and> f) (zip (map (\<lambda>x. x \<noteq> 0) R) Fl)) snd
         = Inr (Fin (read_total noerr_w px R Fl))"
    using s[of fst fst snd snd "\<lambda>r f. \<not> r"]
    by (simp add: fst_fin2 snd_fin2 read_total_def noerr_w_def)
  have b: "sum_two (map fin2 px)
           (map (\<lambda>(r, f). \<not> r \<and> \<not> f) (zip (map (\<lambda>x. x \<noteq> 0) R) Fl)) snd
           (map (\<lambda>(r, f). \<not> r \<and> f) (zip (map (\<lambda>x. x \<noteq> 0) R) Fl)) fst
         = Inr (Fin (read_total bias_w px R Fl))"
    using s[of snd snd fst fst "\<lambda>r f. \<not> r"]
    by (simp add: fst_fin2 snd_fin2 read_total_def bias_w_def)
  have nb: "sum_two (map fin2 px)
           (map (\<lambda>(r, f). r \<and> \<not> f) (zip (map (\<lambda>x. x \<noteq> 0) R) Fl)) snd
           (map (\<lambda>(r, f). r \<and> f) (zip (map (\<lambda>x. x \<noteq> 0) R) Fl)) fst
         = Inr (Fin (read_total nobias_w px R Fl))"
    using s[of snd snd fst fst "\<lambda>r f. r"]
    by (simp add: fst_fin2 snd_fin2 read_total_def nobias_w_def)
  show ?thesis
    using len by (simp add: eb_count_def Let_def e ne b nb)
qed

lemma read_total_nonneg:
  assumes "list_all nonneg2 px" and "\<And>x r f. nonneg2 x \<Longrightarrow> 0 \<le> w x r f"
  shows "0 \<le> read_total w px R Fl"
  unfolding read_total_def
  by (rule sum_list_nonneg) (use assms in \<open>auto simp: list_all_iff dest!: set_zip_leftD\<close>)

lemma weights_nonneg:
  assumes "nonneg2 x"
  shows "0 \<le> err_w x r f" "0 \<le> noerr_w x r f" "0 \<le> bias_w x r f" "0 \<le> nobias_w x r f"
  using assms by (cases x; simp add: nonneg2_def err_w_def noerr_w_def bias_w_def nobias_w_def)+

lemma update_eb_real:
  assumes len: "length R = length px" "length Fl = length px"
    and nn: "list_all nonneg2 px"
  shows "(let er = read_total err_w px R Fl; ne = read_total noerr_w px R Fl;
              bi = read_total bias_w px R Fl; nb = read_total nobias_w px R Fl in
          update_eb (map fin2 px) R Fl True
            = Inr (Fin (if er + ne = 0 then 0 else er / (er + ne)),
                   Fin (if bi + nb = 0 then 0 else bi / (bi + nb)))
        \<and> (er + bi + ne + nb \<noteq> 0 \<longrightarrow>
             update_eb (map fin2 px) R Fl False
               = Inr (Fin ((er + bi) / (er + bi + ne + nb)),
                      Fin ((er + bi) / (er + bi + ne + nb))))
        \<and> (\<exists>e b. update_eb (map fin2 px) R Fl False = Inr (e, b)))"
proof -
  have pos: "0 \<le> read_total err_w px R Fl" "0 \<le> read_total noerr_w px R Fl"
    "0 \<le> read_total bias_w px R Fl" "0 \<le> read_total nobias_w px R Fl"
    by (rule read_total_nonneg[OF nn], rule weights_nonneg, assumption)+
  have two: "eb_rates \<lparr>errors = Fin er, not_errors = Fin ne, bias = Fin bi, not_bias = Fin nb\<rparr> True
      = (Fin (if er + ne = 0 then 0 else er / (er + ne)),
         Fin (if bi + nb = 0 then 0 else bi / (bi + nb)))"
    if "0 \<le> er" "0 \<le> ne" "0 \<le> bi" "0 \<le> nb" for er ne bi nb :: real
    using that by (auto simp: eb_rates_def)
  have one: "eb_rates \<lparr>errors = Fin er, not_errors = Fin ne, bias = Fin bi, not_bias = Fin nb\<rparr> False
      = (Fin ((er + bi) / (er + bi + ne + nb)), Fin ((er + bi) / (er + bi + ne + nb)))"
    if "er + bi + ne + nb \<noteq> 0" for er ne bi nb :: real
    using that by (simp add: eb_rates_def Let_def)
  show ?thesis
    unfolding Let_def update_eb_def eb_count_fin2[OF len] sum.case
    using two[OF pos] one by auto
qed

text \<open>
  Claim C7, as amended. For non-negative posteriors and read arrays of one length,
  \<open>update_eb\<close> raises nothing. In the two-error mode it returns
  \<open>e = errors / (errors + not_errors)\<close> and \<open>b = bias / (bias + not_bias)\<close>, each with
  the value 0 when its denominator is zero. In the single error-rate mode it returns the
  merged rate \<open>(errors + bias) / (errors + bias + not_errors + not_bias)\<close> for both \<open>e\<close>
  and \<open>b\<close> when some read carries weight; it is not \<open>errors / (errors + not_errors)\<close>.
\<close>

theorem update_eb_rates:
  assumes len: "length R = length px" "length Fl = length px"
    and nn: "list_all nonneg2 px"
  shows "(let er = read_total err_w px R Fl; ne = read_total noerr_w px R Fl;
              bi = read_total bias_w px R Fl; nb = read_total nobias_w px R Fl in
          update_eb (map fin2 px) R Fl True
            = Inr (Fin (if er + ne = 0 then 0 else er / (er + ne)),
                   Fin (if bi + nb = 0 then 0 else bi / (bi + nb)))
        \<and> (er + bi + ne + nb \<noteq> 0 \<longrightarrow>
             update_eb (map fin2 px) R Fl False
               = Inr (Fin ((er + bi) / (er + bi + ne + nb)),
                      Fin ((er + bi) / (er + bi + ne + nb))))
        \<and> (\<exists>e b. update_eb (map fin2 px) R Fl False = Inr (e, b)))"
  using assms by (rule update_eb_real)

theorem update_eb_rates_witness:
  "update_eb [(Fin (1 / 2), Fin (1 / 2)), (Fin 1, Fin 0)] [1, 0] [False, False] True
     = Inr (Fin (1 / 3), Fin 0)
   \<and> update_eb [(Fin (1 / 2), Fin (1 / 2)), (Fin 1, Fin 0)] [1, 0] [False, False] False
     = Inr (Fin (1 / 4), Fin (1 / 4))
   \<and> update_eb [] [] [] True = Inr (Fin 0, Fin 0)"
proof -
  have a: "length [1, 0 :: int] = length [(1 / 2, 1 / 2), (1, 0 :: real)]"
    "length [False, False] = length [(1 / 2, 1 / 2), (1, 0 :: real)]"
    "list_all nonneg2 [(1 / 2, 1 / 2), (1, 0)]"
    by (simp_all add: nonneg2_def)
  have b: "length ([] :: int list) = length ([] :: (real \<times> real) list)"
    "length ([] :: bool list) = length ([] :: (real \<times> real) list)"
    "list_all nonneg2 []"
    by simp_all
  from update_eb_rates[OF a] update_eb_rates[OF b] show ?thesis
    by (simp add: Let_def read_total_def err_w_def noerr_w_def bias_w_def nobias_w_def fin2_def)
qed

text \<open>One read with \<open>R = 1\<close>, not flipped, with posterior one half for each state:
  \<open>errors / (errors + not_errors) = 1\<close>, and the single error-rate mode returns the merged
  rate one half. Without any read the single error-rate mode returns NaN, not 0.\<close>

theorem update_eb_single_rate_counterexample:
  "eb_count [(Fin (1 / 2), Fin (1 / 2))] [1] [False]
     = Inr \<lparr>errors = Fin (1 / 2), not_errors = Fin 0, bias = Fin 0, not_bias = Fin (1 / 2)\<rparr>
   \<and> fdiv (Fin (1 / 2)) (fadd (Fin (1 / 2)) (Fin 0)) = Fin 1
   \<and> update_eb [(Fin (1 / 2), Fin (1 / 2))] [1] [False] False = Inr (Fin (1 / 2), Fin (1 / 2))
   \<and> update_eb [] [] [] False = Inr (NaN, NaN)"
  by (simp add: update_eb_def eb_count_def eb_rates_def sum_two_def sum_col_def bool_index_def
      np_sum_def Let_def signed_inf_def)


section \<open>Claim C6: the bounds of the updated parameters\<close>

lemma in_unit_Fin: "in_unit (Fin x) = (0 \<le> x \<and> x \<le> 1)"
  by (auto simp: in_unit_def fle_def)

lemma clip_in_unit:
  assumes "\<not> isnan x"
  shows "in_unit (clip x (Fin 0) (Fin 1))"
  using assms
  by (cases x) (auto simp: in_unit_def fle_def clip_def fmaximum_def fminimum_def isnan_def)

lemma tau_closed_in_unit:
  assumes "nonneg3 g"
  shows "in_unit (tau_closed (fin3 g))"
proof -
  obtain G0 G1 G2 where g: "g = (G0, G1, G2)" by (cases g)
  with assms have nn: "0 \<le> G0" "0 \<le> G1" "0 \<le> G2" by (simp_all add: nonneg3_def)
  have "(G1 / 2 + G2) / (G0 + G1 + G2) \<le> 1" if "G0 + G1 + G2 \<noteq> 0"
    using nn that by (simp add: field_simps)
  moreover have "0 \<le> (G1 / 2 + G2) / (G0 + G1 + G2)"
    using nn by simp
  ultimately show ?thesis
    using assms unfolding g by (simp add: tau_closed_fin3 in_unit_Fin)
qed

lemma F_new_in_unit:
  assumes len: "length (SNP2SFS data) = length pg"
    and hap: "haploid_ok data (length pg)"
    and nn: "list_all nonneg3 pg"
    and x: "F_new data (map fin3 pg) k = Some x"
  shows "in_unit x"
proof -
  let ?g = "total3 (category_rows data pg k)"
  have g: "nonneg3 ?g"
    by (rule total3_nonneg[OF category_rows_nonneg[OF nn]])
  from F_totals_fin3[OF len hap nn g, of k] obtain g' where
    g': "F_totals data (map fin3 pg) k (fin3 ?g) = Inr (fin3 g')" "nonneg3 g'" by auto
  obtain a b c where abc: "g' = (a, b, c)" by (cases g')
  from x have "x = clip (F_closed (fin3 g')) (Fin 0) (Fin 1)"
    by (simp add: F_new_def sfs_totals_fin3[OF len] g'(1))
  then show ?thesis
    using g'(2) unfolding abc by (simp add: F_closed_fin3 clip_Fin in_unit_Fin)
qed

lemma update_ftau_in_unit:
  assumes shape: "length old_F = n_sfs data" "length old_tau = n_sfs data"
      "length (SNP2SFS data) = length pg" "haploid_ok data (length pg)"
    and nn: "list_all nonneg3 pg"
    and old: "upd_F \<or> list_all (\<lambda>x. \<not> isnan x) old_F"
  shows "\<exists>F tau. update_ftau old_F old_tau data (map fin3 pg) upd_F = Inr (F, tau)
     \<and> (\<forall>k<n_sfs data. in_unit (F ! k) \<and> in_unit (tau ! k))"
proof -
  let ?pg = "map fin3 pg"
  let ?n = "n_sfs data"
  have "\<exists>s'. for_range (update_ftau_step data ?pg upd_F) [0..<?n] (old_F, old_tau) = Inr s'"
    by (rule for_range_total) (rule update_ftau_step_total[OF shape(3,4) nn])
  then obtain F tau where
    run: "for_range (update_ftau_step data ?pg upd_F) [0..<?n] (old_F, old_tau) = Inr (F, tau)"
    by (cases) auto
  then have res: "update_ftau old_F old_tau data ?pg upd_F = Inr (F, tau)"
    using shape(1,2) by (simp add: update_ftau_def assign_all_def)
  note inv = update_ftau_loop[OF run]
  have "in_unit (F ! k) \<and> in_unit (tau ! k)" if k: "k < ?n" for k
  proof
    from inv k shape(2) have
      "case sfs_totals data ?pg k of Inl err \<Rightarrow> False | Inr G \<Rightarrow> tau ! k = tau_closed G"
      by auto
    then have "tau ! k = tau_closed (fin3 (total3 (category_rows data pg k)))"
      by (simp add: sfs_totals_fin3[OF shape(3)])
    then show "in_unit (tau ! k)"
      by (simp add: tau_closed_in_unit total3_nonneg[OF category_rows_nonneg[OF nn]])
    show "in_unit (F ! k)"
    proof (cases upd_F)
      case True
      with inv k shape(1) have "F_new data ?pg k = Some (F ! k)" by auto
      then show ?thesis by (rule F_new_in_unit[OF shape(3,4) nn])
    next
      case False
      with old have "\<not> isnan (old_F ! k)"
        using k shape(1) by (simp add: list_all_length)
      moreover from inv k shape(1) False have "F ! k = clip (old_F ! k) (Fin 0) (Fin 1)"
        by auto
      ultimately show ?thesis by (simp add: clip_in_unit)
    qed
  qed
  with res show ?thesis by blast
qed

lemma mean_in_unit:
  assumes "xs \<noteq> []" "list_all (\<lambda>x. 0 \<le> x \<and> x \<le> 1) xs"
  shows "0 \<le> sum_list xs / real (length xs) \<and> sum_list xs / real (length xs) \<le> 1"
proof -
  from assms(2) have "0 \<le> sum_list xs \<and> sum_list xs \<le> real (length xs)"
    by (induction xs) auto
  with assms(1) show ?thesis by (simp add: field_simps)
qed

lemma update_c_in_unit:
  assumes "length read2rg = length pc" and "list_all (\<lambda>x. 0 \<le> x \<and> x \<le> 1) pc"
  shows "\<exists>c. update_c (map Fin pc) read2rg n = Inr c
     \<and> (\<forall>r<n. group_reads pc read2rg r \<noteq> [] \<longrightarrow> in_unit (c ! r))"
proof -
  have g: "list_all (\<lambda>x. 0 \<le> x \<and> x \<le> 1) (group_reads pc read2rg r)" for r
    using assms(2) by (auto simp: group_reads_def list_all_iff dest!: set_zip_leftD)
  have "in_unit (Fin (sum_list (group_reads pc read2rg r)
                      / real (length (group_reads pc read2rg r))))"
    if "group_reads pc read2rg r \<noteq> []" for r
    using mean_in_unit[OF that g] by (simp only: in_unit_Fin)
  then show ?thesis
    by (simp add: update_c_real[OF assms(1)] Let_def)
qed

lemma update_eb_in_unit:
  assumes len: "length R = length px" "length Fl = length px"
    and nn: "list_all nonneg2 px"
    and w: "two \<or> read_total err_w px R Fl + read_total bias_w px R Fl
                 + read_total noerr_w px R Fl + read_total nobias_w px R Fl \<noteq> 0"
  shows "\<exists>e b. update_eb (map fin2 px) R Fl two = Inr (e, b) \<and> in_unit e \<and> in_unit b"
proof -
  let ?er = "read_total err_w px R Fl" and ?ne = "read_total noerr_w px R Fl"
    and ?bi = "read_total bias_w px R Fl" and ?nb = "read_total nobias_w px R Fl"
  have pos: "0 \<le> ?er" "0 \<le> ?ne" "0 \<le> ?bi" "0 \<le> ?nb"
    by (rule read_total_nonneg[OF nn], rule weights_nonneg, assumption)+
  have frac: "0 \<le> a / (a + c) \<and> a / (a + c) \<le> 1" if "0 \<le> a" "0 \<le> c" for a c :: real
    using that by (cases "a + c = 0") (simp_all add: field_simps)
  note r = update_eb_real[OF len nn, unfolded Let_def]
  show ?thesis
  proof (cases two)
    case True
    with r frac[OF pos(1,2)] frac[OF pos(3,4)] show ?thesis
      by (auto simp: in_unit_Fin)
  next
    case False
    with w have nz: "?er + ?bi + ?ne + ?nb \<noteq> 0" by simp
    have "0 \<le> ?er + ?bi" "0 \<le> ?ne + ?nb" using pos by simp_all
    from frac[OF this] have
      "0 \<le> (?er + ?bi) / (?er + ?bi + ?ne + ?nb) \<and> (?er + ?bi) / (?er + ?bi + ?ne + ?nb) \<le> 1"
      by (simp add: add.assoc)
    with r nz False show ?thesis
      by (auto simp: in_unit_Fin)
  qed
qed

text \<open>
  Claim C6, as amended. For inputs of the declared domain (non-negative posteriors,
  contamination posteriors in \<open>[0, 1]\<close>, arrays of the shapes of the data) the updates
  raise nothing and return values in the closed unit interval: \<open>0 \<le> F[k] \<le> 1\<close> and
  \<open>0 \<le> tau[k] \<le> 1\<close> from \<open>update_ftau\<close> (\<open>F\<close> is clipped, and when \<open>F\<close> is not updated
  the old \<open>F\<close> must hold no NaN); \<open>0 \<le> cont[r] \<le> 1\<close> from \<open>update_c\<close> for every
  read-group that has a read; \<open>0 \<le> e, b \<le> 1\<close> from \<open>update_eb\<close> in the two-error mode,
  and in the single error-rate mode when some read carries weight. The bound of \<open>tau\<close>
  is closed: \<open>tau[k] = 0\<close> occurs.
\<close>

theorem updates_within_bounds:
  "(length old_F = n_sfs data \<and> length old_tau = n_sfs data
      \<and> length (SNP2SFS data) = length pg \<and> haploid_ok data (length pg)
      \<and> list_all nonneg3 pg \<and> (upd_F \<or> list_all (\<lambda>x. \<not> isnan x) old_F) \<longrightarrow>
    (\<exists>F tau. update_ftau old_F old_tau data (map fin3 pg) upd_F = Inr (F, tau)
       \<and> (\<forall>k<n_sfs data. in_unit (F ! k) \<and> in_unit (tau ! k))))
   \<and> (length read2rg = length pc \<and> list_all (\<lambda>x. 0 \<le> x \<and> x \<le> 1) pc \<longrightarrow>
    (\<exists>c. update_c (map Fin pc) read2rg n = Inr c
       \<and> (\<forall>r<n. group_reads pc read2rg r \<noteq> [] \<longrightarrow> in_unit (c ! r))))
   \<and> (length R = length px \<and> length Fl = length px \<and> list_all nonneg2 px
      \<and> (two \<or> read_total err_w px R Fl + read_total bias_w px R Fl
                 + read_total noerr_w px R Fl + read_total nobias_w px R Fl \<noteq> 0) \<longrightarrow>
    (\<exists>e b. update_eb (map fin2 px) R Fl two = Inr (e, b) \<and> in_unit e \<and> in_unit b))"
proof (intro conjI impI)
  assume "length old_F = n_sfs data \<and> length old_tau = n_sfs data
      \<and> length (SNP2SFS data) = length pg \<and> haploid_ok data (length pg)
      \<and> list_all nonneg3 pg \<and> (upd_F \<or> list_all (\<lambda>x. \<not> isnan x) old_F)"
  then show "\<exists>F tau. update_ftau old_F old_tau data (map fin3 pg) upd_F = Inr (F, tau)
       \<and> (\<forall>k<n_sfs data. in_unit (F ! k) \<and> in_unit (tau ! k))"
    by (intro update_ftau_in_unit) simp_all
next
  assume "length read2rg = length pc \<and> list_all (\<lambda>x. 0 \<le> x \<and> x \<le> 1) pc"
  then show "\<exists>c. update_c (map Fin pc) read2rg n = Inr c
       \<and> (\<forall>r<n. group_reads pc read2rg r \<noteq> [] \<longrightarrow> in_unit (c ! r))"
    by (intro update_c_in_unit) simp_all
next
  assume "length R = length px \<and> length Fl = length px \<and> list_all nonneg2 px
      \<and> (two \<or> read_total err_w px R Fl + read_total bias_w px R Fl
                 + read_total noerr_w px R Fl + read_total nobias_w px R Fl \<noteq> 0)"
  then show "\<exists>e b. update_eb (map fin2 px) R Fl two = Inr (e, b) \<and> in_unit e \<and> in_unit b"
    by (intro update_eb_in_unit) simp_all
qed

theorem updates_within_bounds_witness:
  "(\<exists>F tau. update_ftau [Fin (1 / 2)] [Fin (1 / 2)] data_one_category
               (map fin3 post_g_ancestral) True = Inr (F, tau)
       \<and> in_unit (F ! 0) \<and> in_unit (tau ! 0))
   \<and> (\<exists>c. update_c (map Fin [1 / 10, 3 / 10]) [0, 0] 1 = Inr c \<and> in_unit (c ! 0))
   \<and> (\<exists>e b. update_eb (map fin2 [(1 / 2, 1 / 2), (1, 0)]) [1, 0] [False, False] True
               = Inr (e, b) \<and> in_unit e \<and> in_unit b)"
proof -
  have a: "length [Fin (1 / 2)] = n_sfs data_one_category
      \<and> length [Fin (1 / 2)] = n_sfs data_one_category
      \<and> length (SNP2SFS data_one_category) = length post_g_ancestral
      \<and> haploid_ok data_one_category (length post_g_ancestral)
      \<and> list_all nonneg3 post_g_ancestral
      \<and> (True \<or> list_all (\<lambda>x. \<not> isnan x) [Fin (1 / 2)])"
    by (simp add: data_one_category_def post_g_ancestral_def haploid_ok_def nonneg3_def)
  have b: "length [0, 0 :: int] = length [1 / 10, 3 / 10 :: real]
      \<and> list_all (\<lambda>x. 0 \<le> x \<and> x \<le> 1) [1 / 10, 3 / 10 :: real]"
    by simp
  have c: "length [1, 0 :: int] = length [(1 / 2, 1 / 2), (1, 0 :: real)]
      \<and> length [False, False] = length [(1 / 2, 1 / 2), (1, 0 :: real)]
      \<and> list_all nonneg2 [(1 / 2, 1 / 2), (1, 0)]
      \<and> (True \<or> read_total err_w [(1 / 2, 1 / 2), (1, 0)] [1, 0] [False, False]
                 + read_total bias_w [(1 / 2, 1 / 2), (1, 0)] [1, 0] [False, False]
                 + read_total noerr_w [(1 / 2, 1 / 2), (1, 0)] [1, 0] [False, False]
                 + read_total nobias_w [(1 / 2, 1 / 2), (1, 0)] [1, 0] [False, False] \<noteq> 0)"
    by (simp add: nonneg2_def)
  have n: "n_sfs data_one_category = 1" by (simp add: data_one_category_def)
  have g: "group_reads [1 / 10, 3 / 10 :: real] [0, 0] 0 \<noteq> []"
    by (simp add: group_reads_def)
  note t = updates_within_bounds[of "[Fin (1 / 2)]" data_one_category "[Fin (1 / 2)]"
      post_g_ancestral True "[0, 0]" "[1 / 10, 3 / 10]" 1
      "[1, 0]" "[(1 / 2, 1 / 2), (1, 0)]" "[False, False]" True]
  from t a n have "\<exists>F tau. update_ftau [Fin (1 / 2)] [Fin (1 / 2)] data_one_category
               (map fin3 post_g_ancestral) True = Inr (F, tau)
       \<and> in_unit (F ! 0) \<and> in_unit (tau ! 0)"
    by auto
  moreover from t b g have
    "\<exists>c. update_c (map Fin [1 / 10, 3 / 10]) [0, 0] 1 = Inr c \<and> in_unit (c ! 0)"
    by auto
  moreover from t c have
    "\<exists>e b. update_eb (map fin2 [(1 / 2, 1 / 2), (1, 0)]) [1, 0] [False, False] True
               = Inr (e, b) \<and> in_unit e \<and> in_unit b"
    by blast
  ultimately show ?thesis by blast
qed

text \<open>The SNPs of the category are all homozygous ancestral: \<open>tau = 0\<close>, which is not
  inside the open interval of the claim.\<close>

theorem tau_bound_counterexample:
  "update_ftau [Fin (1 / 2)] [Fin (1 / 2)] data_one_category (map fin3 post_g_ancestral) True
     = Inr ([Fin (2 * 10 / (2 * 10 + eps300))], [Fin 0])
   \<and> \<not> flt (Fin 0) ([Fin 0] ! 0)"
proof -
  have nn: "list_all nonneg3 post_g_ancestral"
    by (simp add: post_g_ancestral_def nonneg3_def)
  have a: "length [Fin (1 / 2)] = n_sfs data_one_category"
    "length (SNP2SFS data_one_category) = length post_g_ancestral"
    "haploid_ok data_one_category (length post_g_ancestral)"
    "haploid_snps data_one_category = None"
    by (simp_all add: data_one_category_def post_g_ancestral_def haploid_ok_def)
  have g0: "total3 (category_rows data_one_category post_g_ancestral 0) = (10, 0, 0)"
    by (simp add: total3_def category_rows_def data_one_category_def post_g_ancestral_def)
  have n1: "n_sfs data_one_category = 1"
    by (simp add: data_one_category_def)
  from update_ftau_real[OF a(1) a(1) a(2) a(3) nn, of True] g0 a(4) n1
  show ?thesis by auto
qed


section \<open>The steps of \<open>update_pars\<close>\<close>

lemma ftau_block_result:
  assumes "ftau_block X data ctl post_g p = Inr q"
  shows "update_ftau_numeric X (par_F p) (par_tau p) data post_g (update_F ctl)
           = Inr (par_F q, par_tau q)
       \<and> par_cont q = par_cont p \<and> par_e q = par_e p \<and> par_b q = par_b p
       \<and> ll q = ll p \<and> prev_ll q = prev_ll p"
  using assms by (auto simp: ftau_block_def split: sum.splits)

lemma cont_block_result:
  assumes "cont_block data post_c p = Inr q"
  shows "update_c post_c (READ2RG data) (n_rgs data) = Inr (par_cont q)
       \<and> par_F q = par_F p \<and> par_tau q = par_tau p \<and> par_e q = par_e p \<and> par_b q = par_b p
       \<and> ll q = ll p \<and> prev_ll q = prev_ll p"
  using assms by (auto simp: cont_block_def split: sum.splits)

lemma eb_block_result:
  assumes "eb_block data ctl post_x p = Inr q"
  shows "update_eb post_x (READS data) (FLIPPED_READS data) (update_bias ctl)
           = Inr (par_e q, par_b q)
       \<and> par_F q = par_F p \<and> par_tau q = par_tau p \<and> par_cont q = par_cont p
       \<and> ll q = ll p \<and> prev_ll q = prev_ll p"
  using assms by (auto simp: eb_block_def split: sum.splits)

text \<open>The four steps of \<open>updated_pars\<close>, one after the other.\<close>

lemma updated_pars_steps:
  assumes "updated_pars X pars data ctl = Inr q"
  obtains p1 p2 p3 post_c post_x where
    "if do_update_ftau ctl then ftau_block X data ctl (e_step_post_g X data pars) pars = Inr p1
     else p1 = pars"
    "if update_cont ctl then cont_block data post_c p1 = Inr p2 else p2 = p1"
    "if do_update_eb ctl then eb_block data ctl post_x p2 = Inr p3 else p3 = p2"
    "q = (if do_ll ctl then p3\<lparr>ll := calc_full_ll X data p3, prev_ll := ll p3\<rparr> else p3)"
  using assms unfolding updated_pars_def e_step_post_g_def Let_def
  by (auto split: sum.splits if_splits)

lemma updated_pars_sfs:
  assumes "updated_pars X pars data ctl = Inr q"
  shows "if do_update_ftau ctl
         then update_ftau_numeric X (par_F pars) (par_tau pars) data
                (e_step_post_g X data pars) (update_F ctl) = Inr (par_F q, par_tau q)
         else par_F q = par_F pars \<and> par_tau q = par_tau pars"
proof -
  from assms obtain p1 p2 p3 post_c post_x where s:
    "if do_update_ftau ctl then ftau_block X data ctl (e_step_post_g X data pars) pars = Inr p1
     else p1 = pars"
    "if update_cont ctl then cont_block data post_c p1 = Inr p2 else p2 = p1"
    "if do_update_eb ctl then eb_block data ctl post_x p2 = Inr p3 else p3 = p2"
    "q = (if do_ll ctl then p3\<lparr>ll := calc_full_ll X data p3, prev_ll := ll p3\<rparr> else p3)"
    by (rule updated_pars_steps)
  have "par_F q = par_F p3 \<and> par_tau q = par_tau p3" using s(4) by simp
  moreover have "par_F p3 = par_F p2 \<and> par_tau p3 = par_tau p2"
    using s(3) eb_block_result[of data ctl post_x p2 p3] by (auto split: if_splits)
  moreover have "par_F p2 = par_F p1 \<and> par_tau p2 = par_tau p1"
    using s(2) cont_block_result[of data post_c p1 p2] by (auto split: if_splits)
  ultimately have "par_F q = par_F p1 \<and> par_tau q = par_tau p1" by simp
  then show ?thesis
    using s(1) ftau_block_result[of X data ctl "e_step_post_g X data pars" pars p1]
    by (auto split: if_splits)
qed

lemma updated_pars_ll:
  assumes "updated_pars X pars data ctl = Inr q"
  shows "if do_ll ctl then (\<exists>p. ll q = calc_full_ll X data p) \<and> prev_ll q = ll pars
         else ll q = ll pars \<and> prev_ll q = prev_ll pars"
proof -
  from assms obtain p1 p2 p3 post_c post_x where s:
    "if do_update_ftau ctl then ftau_block X data ctl (e_step_post_g X data pars) pars = Inr p1
     else p1 = pars"
    "if update_cont ctl then cont_block data post_c p1 = Inr p2 else p2 = p1"
    "if do_update_eb ctl then eb_block data ctl post_x p2 = Inr p3 else p3 = p2"
    "q = (if do_ll ctl then p3\<lparr>ll := calc_full_ll X data p3, prev_ll := ll p3\<rparr> else p3)"
    by (rule updated_pars_steps)
  have "ll p1 = ll pars \<and> prev_ll p1 = prev_ll pars"
    using s(1) ftau_block_result[of X data ctl "e_step_post_g X data pars" pars p1]
    by (auto split: if_splits)
  moreover have "ll p2 = ll p1 \<and> prev_ll p2 = prev_ll p1"
    using s(2) cont_block_result[of data post_c p1 p2] by (auto split: if_splits)
  moreover have "ll p3 = ll p2 \<and> prev_ll p3 = prev_ll p2"
    using s(3) eb_block_result[of data ctl post_x p2 p3] by (auto split: if_splits)
  ultimately have "ll p3 = ll pars \<and> prev_ll p3 = prev_ll pars" by simp
  then show ?thesis using s(4) by auto
qed


section \<open>Claim C4: the SFS update that \<open>update_pars\<close> calls\<close>

lemma post_g_ancestral_facts:
  "list_all nonneg3 post_g_ancestral"
  "length (SNP2SFS data_one_category) = length post_g_ancestral"
  "haploid_ok data_one_category (length post_g_ancestral)"
  "haploid_snps data_one_category = None"
  "n_sfs data_one_category = 1"
  "total3 (category_rows data_one_category post_g_ancestral 0) = (10, 0, 0)"
  by (simp_all add: data_one_category_def post_g_ancestral_def haploid_ok_def nonneg3_def
      total3_def category_rows_def)

lemma e_step_ancestral:
  "e_step_post_g X_ancestral data pars = map fin3 post_g_ancestral"
  by (simp add: e_step_post_g_def X_ancestral_def X_null_def)

lemma numeric_ancestral:
  "update_ftau_numeric X_ancestral [Fin (1 / 2)] [Fin (1 / 2)] data_one_category
     (map fin3 post_g_ancestral) upd_F
   = (if upd_F then Inr ([Fin (1 / 2)], [Fin (1 / 2)]) else Inl TypeError)"
proof -
  have "sfs_objective (Fin 10, Fin 0, Fin 0) (Fin (1 / 2), Fin (1 / 2))
      = Inr (Fin (- (ln (3 / 8) * 10)))"
    by (simp add: sfs_objective_def Let_def fsub_def isnan_def)
  then show ?thesis
    by (simp add: update_ftau_numeric_def assign_all_def post_g_ancestral_facts
        update_ftau_numeric_step_def sfs_totals_fin3 fin3_def X_ancestral_def X_null_def)
qed

text \<open>
  Claim C4, as amended. \<open>update_pars\<close> has one SFS update: when \<open>controller.update_ftau\<close> is
  set it calls the numerically optimised \<open>update_ftau_numeric\<close> on the genotype posterior
  of the E-step, with \<open>controller.update_F\<close> passed on, takes \<open>F\<close> and \<open>tau\<close> from its
  result and raises what it raises; when the option is not set, \<open>F\<close> and \<open>tau\<close> stay as
  they are. No value of the configuration makes it call the closed-form \<open>update_ftau\<close>.
\<close>

theorem update_pars_calls_numeric:
  "(case update_pars X pars data ctl of
      Inl err \<Rightarrow> True
    | Inr (p', q) \<Rightarrow>
        if do_update_ftau ctl
        then update_ftau_numeric X (par_F pars) (par_tau pars) data
               (e_step_post_g X data pars) (update_F ctl) = Inr (par_F q, par_tau q)
        else par_F q = par_F pars \<and> par_tau q = par_tau pars)
   \<and> (do_update_ftau ctl \<longrightarrow>
        (\<forall>err. update_ftau_numeric X (par_F pars) (par_tau pars) data
                 (e_step_post_g X data pars) (update_F ctl) = Inl err
               \<longrightarrow> update_pars X pars data ctl = Inl err))"
proof
  show "case update_pars X pars data ctl of
      Inl err \<Rightarrow> True
    | Inr (p', q) \<Rightarrow>
        if do_update_ftau ctl
        then update_ftau_numeric X (par_F pars) (par_tau pars) data
               (e_step_post_g X data pars) (update_F ctl) = Inr (par_F q, par_tau q)
        else par_F q = par_F pars \<and> par_tau q = par_tau pars"
  proof (cases "updated_pars X pars data ctl")
    case (Inl err)
    then show ?thesis by (simp add: update_pars_def)
  next
    case (Inr q)
    from updated_pars_sfs[OF this] Inr show ?thesis by (simp add: update_pars_def)
  qed
  show "do_update_ftau ctl \<longrightarrow>
        (\<forall>err. update_ftau_numeric X (par_F pars) (par_tau pars) data
                 (e_step_post_g X data pars) (update_F ctl) = Inl err
               \<longrightarrow> update_pars X pars data ctl = Inl err)"
    by (simp add: update_pars_def updated_pars_def e_step_post_g_def ftau_block_def Let_def)
qed

theorem update_pars_calls_numeric_witness:
  "\<exists>p' q. update_pars X_ancestral pars_half data_one_category ctl_sfs = Inr (p', q)
     \<and> update_ftau_numeric X_ancestral [Fin (1 / 2)] [Fin (1 / 2)] data_one_category
          (map fin3 post_g_ancestral) True = Inr (par_F q, par_tau q)
     \<and> update_pars X_ancestral pars_half data_one_category (ctl_sfs\<lparr>update_F := False\<rparr>)
          = Inl TypeError"
proof -
  have num: "update_ftau_numeric X_ancestral (par_F pars_half) (par_tau pars_half)
      data_one_category (e_step_post_g X_ancestral data_one_category pars_half) upd_F
    = (if upd_F then Inr ([Fin (1 / 2)], [Fin (1 / 2)]) else Inl TypeError)" for upd_F
    using numeric_ancestral[of upd_F] by (simp add: e_step_ancestral pars_half_def)
  have "updated_pars X_ancestral pars_half data_one_category ctl_sfs \<noteq> Inl err" for err
    using num[of True]
    by (simp add: updated_pars_def Let_def ftau_block_def ctl_sfs_def
        e_step_post_g_def)
  then obtain p' q where
    r: "update_pars X_ancestral pars_half data_one_category ctl_sfs = Inr (p', q)"
    by (cases "updated_pars X_ancestral pars_half data_one_category ctl_sfs")
      (auto simp: update_pars_def)
  from update_pars_calls_numeric[where X = X_ancestral and pars = pars_half
      and data = data_one_category and ctl = ctl_sfs] r
  have "update_ftau_numeric X_ancestral [Fin (1 / 2)] [Fin (1 / 2)] data_one_category
          (map fin3 post_g_ancestral) True = Inr (par_F q, par_tau q)"
    by (simp add: ctl_sfs_def e_step_ancestral pars_half_def)
  moreover
  from update_pars_calls_numeric[where X = X_ancestral and pars = pars_half
      and data = data_one_category and ctl = "ctl_sfs\<lparr>update_F := False\<rparr>"] num[of False]
  have "update_pars X_ancestral pars_half data_one_category (ctl_sfs\<lparr>update_F := False\<rparr>)
          = Inl TypeError"
    by (simp add: ctl_sfs_def)
  ultimately show ?thesis using r by blast
qed

text \<open>The closed-form update of the example returns \<open>tau = 0\<close>; whatever the controller,
  \<open>update_pars\<close> returns \<open>tau = 1/2\<close>, from the numeric update or from no update.\<close>

theorem closed_form_never_selected_counterexample:
  "\<not> (\<exists>ctl p' q.
        update_pars X_ancestral pars_half data_one_category ctl = Inr (p', q)
      \<and> update_ftau (par_F pars_half) (par_tau pars_half) data_one_category
          (e_step_post_g X_ancestral data_one_category pars_half) (update_F ctl)
        = Inr (par_F q, par_tau q))"
proof
  assume "\<exists>ctl p' q.
        update_pars X_ancestral pars_half data_one_category ctl = Inr (p', q)
      \<and> update_ftau (par_F pars_half) (par_tau pars_half) data_one_category
          (e_step_post_g X_ancestral data_one_category pars_half) (update_F ctl)
        = Inr (par_F q, par_tau q)"
  then obtain ctl p' q where
    r: "update_pars X_ancestral pars_half data_one_category ctl = Inr (p', q)"
    and c: "update_ftau [Fin (1 / 2)] [Fin (1 / 2)] data_one_category
          (map fin3 post_g_ancestral) (update_F ctl) = Inr (par_F q, par_tau q)"
    by (auto simp: e_step_ancestral pars_half_def)
  from r have u: "updated_pars X_ancestral pars_half data_one_category ctl = Inr q"
    by (auto simp: update_pars_def split: sum.splits)
  have "par_tau q = [Fin (1 / 2)]"
    using updated_pars_sfs[OF u] numeric_ancestral[of "update_F ctl"]
    by (auto simp: e_step_ancestral pars_half_def split: if_splits)
  moreover
  have l: "length [Fin (1 / 2)] = n_sfs data_one_category"
    by (simp add: post_g_ancestral_facts)
  from update_ftau_real[OF l l post_g_ancestral_facts(2,3,1), of "update_F ctl"] c
  have "par_tau q ! 0 = Fin 0"
    by (auto simp: post_g_ancestral_facts)
  ultimately show False by simp
qed


section \<open>Claim C9: \<open>em\<close> with and without \<open>copy_pars\<close>\<close>

lemma em_loop_copy:
  assumes "copy_pars ctl" and "em_loop X data ctl n pars = Inr p"
  shows "p = pars"
  using assms(2)
proof (induction n)
  case 0
  then show ?case by simp
next
  case (Suc n)
  then show ?case
    using assms(1) by (auto simp: update_pars_def split: sum.splits if_splits)
qed

text \<open>
  Claim C9. The claim asks that \<open>em\<close> return the same estimate with \<open>copy_pars\<close> set and not
  set. \<open>em\<close> drops the value that \<open>update_pars\<close> returns: with \<open>copy_pars\<close> set the update is
  done on a copy that is lost, and \<open>em\<close> returns the parameters it was given
  (\<open>em_loop_copy\<close>). In the run below the contamination rate goes from one tenth to one
  fifth in place, and stays one tenth with \<open>copy_pars\<close> set.
\<close>

theorem em_copy_pars_differs:
  "em X_fifth (pars_cont (1 / 10)) data_one_read (ctl_cont\<lparr>copy_pars := False\<rparr>)
     = Inr ((pars_cont (1 / 10))\<lparr>par_cont := [Fin (1 / 5)], prev_cont := [Fin (1 / 5)]\<rparr>)
   \<and> em X_fifth (pars_cont (1 / 10)) data_one_read (ctl_cont\<lparr>copy_pars := True\<rparr>)
     = Inr (pars_cont (1 / 10))
   \<and> par_cont (pars_cont (1 / 10)) = [Fin (1 / 10)]"
proof -
  have u: "updated_pars X_fifth p data_one_read (ctl_cont\<lparr>copy_pars := c\<rparr>)
      = Inr (p\<lparr>prev_cont := par_cont p, par_cont := [Fin (1 / 5)]\<rparr>)" for p c
    by (simp add: updated_pars_def Let_def cont_block_def update_c_def bool_index_def
        np_mean_def np_sum_def ctl_cont_def data_one_read_def X_fifth_def X_null_def)
  have t: "ll_tol (ctl_cont\<lparr>copy_pars := c\<rparr>) = Fin 0"
    "n_iter (ctl_cont\<lparr>copy_pars := c\<rparr>) = Suc (Suc 0)" for c
    by (simp_all add: ctl_cont_def)
  have d: "delta_ll (pars_cont (1 / 10)) = Fin 0"
    "delta_ll ((pars_cont (1 / 10))\<lparr>prev_cont := v, par_cont := w\<rparr>) = Fin 0" for v w
    by (simp_all add: delta_ll_def pars_cont_def fsub_def)
  have "em X_fifth (pars_cont (1 / 10)) data_one_read (ctl_cont\<lparr>copy_pars := False\<rparr>)
     = Inr ((pars_cont (1 / 10))\<lparr>par_cont := [Fin (1 / 5)], prev_cont := [Fin (1 / 5)]\<rparr>)"
    by (simp add: em_def t update_pars_def u d delta_ll_def fsub_def pars_cont_def)
  moreover
  have "em X_fifth (pars_cont (1 / 10)) data_one_read (ctl_cont\<lparr>copy_pars := True\<rparr>)
     = Inr (pars_cont (1 / 10))"
    by (simp add: em_def t update_pars_def u d)
  ultimately show ?thesis by (simp add: pars_cont_def)
qed


section \<open>The outer iteration of \<open>squarem\<close>\<close>

lemma fle_refl: "\<not> isnan a \<Longrightarrow> fle a a"
  by (cases a) (simp_all add: fle_def isnan_def)

lemma fle_trans: "fle a b \<Longrightarrow> fle b c \<Longrightarrow> fle a c"
  by (cases a; cases b; cases c) (auto simp: fle_def)

lemma not_fle_flt: "\<not> isnan a \<Longrightarrow> \<not> isnan b \<Longrightarrow> \<not> fle a b \<Longrightarrow> fle b a"
  by (cases a; cases b) (auto simp: fle_def isnan_def)

text \<open>A gain that is not below a non-negative tolerance is no loss.\<close>

lemma gain_not_below_tol:
  assumes "\<not> isnan a" "\<not> isnan b" "fle (Fin 0) tol" "\<not> flt (fsub b a) tol"
  shows "fle a b"
  using assms
  by (cases a; cases b; cases tol) (auto simp: fle_def isnan_def fsub_def)

lemma set_flat_ll:
  assumes "set_flat p v = Inr q"
  shows "ll q = ll p \<and> prev_ll q = prev_ll p"
  using assms by (auto simp: set_flat_def Let_def split: if_splits)

lemma update_pars_ll:
  assumes "update_pars X pars data ctl = Inr (p', q)"
  shows "if do_ll ctl then (\<exists>p. ll q = calc_full_ll X data p) \<and> prev_ll q = ll pars
         else ll q = ll pars \<and> prev_ll q = prev_ll pars"
proof -
  from assms have "updated_pars X pars data ctl = Inr q"
    by (auto simp: update_pars_def split: sum.splits)
  then show ?thesis by (rule updated_pars_ll)
qed

text \<open>The assignment to the flattened vector and the flattening are inverse to each
  other, and a second assignment replaces the first.\<close>

lemma set_flat_total:
  assumes "length v = length (flat p)"
  shows "\<exists>q. set_flat p v = Inr q"
  using assms by (simp add: set_flat_def Let_def)

lemma flat_set_flat:
  assumes "set_flat p v = Inr q"
  shows "flat q = v"
proof -
  let ?nF = "length (par_F p)" and ?nT = "length (par_tau p)" and ?nC = "length (par_cont p)"
  from assms have len: "length v = ?nF + ?nT + ?nC + 2"
    by (auto simp: set_flat_def flat_def split: if_splits)
  from assms have q: "q = p\<lparr>par_F := take ?nF v,
               par_tau := take ?nT (drop ?nF v),
               par_cont := take ?nC (drop (?nF + ?nT) v),
               par_e := v ! (?nF + ?nT + ?nC),
               par_b := v ! (?nF + ?nT + ?nC + 1)\<rparr>"
    by (auto simp: set_flat_def Let_def split: if_splits)
  have "drop (?nF + ?nT + ?nC) v = [v ! (?nF + ?nT + ?nC), v ! (?nF + ?nT + ?nC + 1)]"
    using len by (simp add: list_eq_iff_nth_eq nth_Cons split: nat.splits)
  then have "v = take ?nF v @ take ?nT (drop ?nF v) @ take ?nC (drop (?nF + ?nT) v)
                 @ [v ! (?nF + ?nT + ?nC), v ! (?nF + ?nT + ?nC + 1)]"
    by (metis append_take_drop_id drop_drop add.commute)
  then show ?thesis
    unfolding q flat_def by simp
qed

lemma set_flat_set_flat:
  assumes "set_flat p v = Inr q" and "length w = length v"
  shows "set_flat q w = set_flat p w"
proof -
  let ?nF = "length (par_F p)" and ?nT = "length (par_tau p)" and ?nC = "length (par_cont p)"
  from assms(1) have len: "length v = ?nF + ?nT + ?nC + 2"
    by (auto simp: set_flat_def flat_def split: if_splits)
  from assms(1) have q: "q = p\<lparr>par_F := take ?nF v,
               par_tau := take ?nT (drop ?nF v),
               par_cont := take ?nC (drop (?nF + ?nT) v),
               par_e := v ! (?nF + ?nT + ?nC),
               par_b := v ! (?nF + ?nT + ?nC + 1)\<rparr>"
    by (auto simp: set_flat_def Let_def split: if_splits)
  have lens: "length (par_F q) = ?nF" "length (par_tau q) = ?nT" "length (par_cont q) = ?nC"
    unfolding q using len by simp_all
  have "set_flat q w =
          Inr (q\<lparr>par_F := take ?nF w,
                 par_tau := take ?nT (drop ?nF w),
                 par_cont := take ?nC (drop (?nF + ?nT) w),
                 par_e := w ! (?nF + ?nT + ?nC),
                 par_b := w ! (?nF + ?nT + ?nC + 1)\<rparr>)"
    using assms(2) len by (simp add: set_flat_def flat_def Let_def lens)
  also have "\<dots> =
          Inr (p\<lparr>par_F := take ?nF w,
                 par_tau := take ?nT (drop ?nF w),
                 par_cont := take ?nC (drop (?nF + ?nT) w),
                 par_e := w ! (?nF + ?nT + ?nC),
                 par_b := w ! (?nF + ?nT + ?nC + 1)\<rparr>)"
    unfolding q by simp
  also have "\<dots> = set_flat p w"
    using assms(2) len by (simp add: set_flat_def flat_def Let_def)
  finally show ?thesis .
qed

lemma length_stabilize: "length (stabilize v) = length v"
  by (simp add: stabilize_def)

lemma extrapolate_total:
  assumes "length v0 = length dp1" "length dp3 = length dp1"
  shows "\<exists>v. extrapolate v0 step dp1 dp3 = Inr v \<and> length v = length dp1"
  using assms by (simp add: extrapolate_def vzip_def)

text \<open>The candidate is \<open>pars2\<close> with the stabilised extrapolation as its flattened vector;
  for vectors of one length there is one.\<close>

lemma squarem_candidate_eq:
  assumes "extrapolate v0 step dp1 dp3 = Inr v"
  shows "squarem_candidate v0 step dp1 dp3 pars2 =
           (case set_flat pars2 v of Inl err \<Rightarrow> Inl err
            | Inr cand \<Rightarrow> set_flat pars2 (stabilize v))"
  using assms
  by (auto simp: squarem_candidate_def flat_set_flat set_flat_set_flat length_stabilize
      split: sum.splits)

lemma squarem_candidate_total:
  assumes "length v0 = length dp1" "length dp3 = length dp1" "length (flat pars2) = length dp1"
  shows "\<exists>cand. squarem_candidate v0 step dp1 dp3 pars2 = Inr cand"
proof -
  from extrapolate_total[OF assms(1,2)] obtain v where
    v: "extrapolate v0 step dp1 dp3 = Inr v" "length v = length dp1" by blast
  from v(2) assms(3) obtain c0 where c0: "set_flat pars2 v = Inr c0"
    using set_flat_total by metis
  from v(2) assms(3) obtain c1 where "set_flat pars2 (stabilize v) = Inr c1"
    using set_flat_total length_stabilize by metis
  with c0 show ?thesis
    by (simp add: squarem_candidate_eq[OF v(1)])
qed

lemma squarem_candidate_ll:
  assumes "squarem_candidate v0 step dp1 dp3 pars2 = Inr cand"
  shows "ll cand = ll pars2"
  using assms set_flat_ll
  by (auto simp: squarem_candidate_def split: sum.splits)

lemma pars_sub_length:
  assumes "pars_sub p q = Inr d"
  shows "length (flat p) = length d" "length (flat q) = length d"
  using assms by (auto simp: pars_sub_def vzip_def split: if_splits)

lemma vzip_length:
  assumes "vzip f u v = Inr w"
  shows "length u = length w" "length v = length w"
  using assms by (auto simp: vzip_def split: if_splits)

text \<open>An outer iteration in which no stopping check fires: the candidate exists, and the
  iteration ends as the update of the candidate and the acceptance test do.\<close>

lemma squarem_iter_steps:
  assumes "update_pars X pars data ctl = Inr (a, pars1)" and "pars_sub pars1 pars = Inr dp1"
    and "\<not> stop_check ctl dp1 (fsub (ll pars1) (prev_ll pars1))"
    and "update_pars X pars1 data ctl = Inr (b, pars2)" and "pars_sub pars2 pars1 = Inr dp2"
    and "\<not> stop_check ctl dp2 (fsub (ll pars2) (ll pars1))"
    and "vzip fsub dp2 dp1 = Inr dp3"
  shows "\<exists>cand. squarem_candidate (flat pars) (step_size_of dp1 dp3 min_step max_step)
                   dp1 dp3 pars2 = Inr cand
         \<and> squarem_iter X data ctl min_step max_step pars =
             (case update_pars X cand data ctl of
                Inl err \<Rightarrow> Inl err
              | Inr (c, pars_sq) \<Rightarrow>
                  (case accept ctl (step_size_of dp1 dp3 min_step max_step) max_step
                          pars2 pars_sq of
                     Inl err \<Rightarrow> Inl err
                   | Inr (p, m) \<Rightarrow> Inr (Continue p m)))"
proof -
  note l1 = pars_sub_length[OF assms(2)] and l2 = pars_sub_length[OF assms(5)]
    and l3 = vzip_length[OF assms(7)]
  have "\<exists>cand. squarem_candidate (flat pars) (step_size_of dp1 dp3 min_step max_step)
                   dp1 dp3 pars2 = Inr cand"
    using l1 l2 l3 by (intro squarem_candidate_total) simp_all
  then obtain cand where
    c: "squarem_candidate (flat pars) (step_size_of dp1 dp3 min_step max_step)
          dp1 dp3 pars2 = Inr cand" ..
  have "squarem_iter X data ctl min_step max_step pars =
             (case update_pars X cand data ctl of
                Inl err \<Rightarrow> Inl err
              | Inr (c, pars_sq) \<Rightarrow>
                  (case accept ctl (step_size_of dp1 dp3 min_step max_step) max_step
                          pars2 pars_sq of
                     Inl err \<Rightarrow> Inl err
                   | Inr (p, m) \<Rightarrow> Inr (Continue p m)))"
    using assms(1-7) c by (simp add: squarem_iter_def squarem_jump_def Let_def)
  with c show ?thesis by blast
qed

text \<open>What an outer iteration that does not leave the loop has done.\<close>

lemma squarem_jump_Continue:
  assumes "squarem_jump X data ctl min_step max_step pars pars2 dp1 dp2 = Inr r"
  obtains dp3 cand c pars_sq p m where
    "vzip fsub dp2 dp1 = Inr dp3"
    "squarem_candidate (flat pars) (step_size_of dp1 dp3 min_step max_step) dp1 dp3 pars2
       = Inr cand"
    "update_pars X cand data ctl = Inr (c, pars_sq)"
    "accept ctl (step_size_of dp1 dp3 min_step max_step) max_step pars2 pars_sq = Inr (p, m)"
    "r = Continue p m"
  using assms unfolding squarem_jump_def Let_def
  by (auto split: sum.splits prod.splits)

lemma squarem_iter_Continue:
  assumes "squarem_iter X data ctl min_step max_step pars = Inr (Continue p m)"
  obtains a pars1 dp1 b pars2 dp2 where
    "update_pars X pars data ctl = Inr (a, pars1)"
    "pars_sub pars1 pars = Inr dp1"
    "\<not> stop_check ctl dp1 (fsub (ll pars1) (prev_ll pars1))"
    "update_pars X pars1 data ctl = Inr (b, pars2)"
    "pars_sub pars2 pars1 = Inr dp2"
    "\<not> stop_check ctl dp2 (fsub (ll pars2) (ll pars1))"
    "squarem_jump X data ctl min_step max_step pars pars2 dp1 dp2 = Inr (Continue p m)"
  using assms unfolding squarem_iter_def
  by (auto split: sum.splits prod.splits if_splits)

lemma accept_point:
  assumes "accept ctl step max_step pars2 pars_sq = Inr (p, m)"
  shows "p = pars2 \<or> (p = pars_sq \<and> \<not> fle (ll pars_sq) (ll pars2))"
  using assms by (auto simp: accept_def split: if_splits)


section \<open>The log-likelihood along an outer iteration\<close>

lemma iter_lls_values:
  assumes "update_pars X pars data ctl = Inr (a, pars1)"
    and "update_pars X pars1 data ctl = Inr (b, pars2)"
  shows "iter_lls X data ctl pars = [ll pars1, ll pars2]"
  using assms by (simp add: iter_lls_def)

lemma squarem_iter_ll:
  assumes tol: "fle (Fin 0) (ll_tol ctl)"
    and it: "squarem_iter X data ctl min_step max_step pars = Inr (Continue p m)"
    and init: "\<not> isnan (ll pars)"
    and lls: "list_all (\<lambda>x. \<not> isnan x) (iter_lls X data ctl pars)"
    and fin: "\<not> isnan (ll p)"
  shows "fle (ll pars) (ll p)"
proof -
  from it obtain a pars1 dp1 b pars2 dp2 where s:
    "update_pars X pars data ctl = Inr (a, pars1)"
    "\<not> stop_check ctl dp1 (fsub (ll pars1) (prev_ll pars1))"
    "update_pars X pars1 data ctl = Inr (b, pars2)"
    "\<not> stop_check ctl dp2 (fsub (ll pars2) (ll pars1))"
    "squarem_jump X data ctl min_step max_step pars pars2 dp1 dp2 = Inr (Continue p m)"
    by (rule squarem_iter_Continue)
  from s(5) obtain step pars_sq p' m' where j:
    "accept ctl step max_step pars2 pars_sq = Inr (p', m')" "Continue p m = Continue p' m'"
    by (rule squarem_jump_Continue)
  note u1 = update_pars_ll[OF s(1)]
  from lls have n1: "\<not> isnan (ll pars1)" and n2: "\<not> isnan (ll pars2)"
    by (simp_all add: iter_lls_values[OF s(1) s(3)])
  have g1: "fle (ll pars) (ll pars1)"
  proof (cases "do_ll ctl")
    case True
    with u1 have "prev_ll pars1 = ll pars" by simp
    with s(2) have "\<not> flt (fsub (ll pars1) (ll pars)) (ll_tol ctl)"
      by (simp add: stop_check_def)
    then show ?thesis by (rule gain_not_below_tol[OF init n1 tol])
  next
    case False
    with u1 init show ?thesis by (simp add: fle_refl)
  qed
  have g2: "fle (ll pars1) (ll pars2)"
  proof -
    from s(4) have "\<not> flt (fsub (ll pars2) (ll pars1)) (ll_tol ctl)"
      by (simp add: stop_check_def)
    then show ?thesis by (rule gain_not_below_tol[OF n1 n2 tol])
  qed
  from j have "p = pars2 \<or> (p = pars_sq \<and> \<not> fle (ll pars_sq) (ll pars2))"
    using accept_point by auto
  then have "fle (ll pars2) (ll p)"
    using n2 fin by (auto simp: fle_refl not_fle_flt)
  with g1 g2 show ?thesis by (blast intro: fle_trans)
qed

lemma squarem_trace_ll:
  assumes tol: "fle (Fin 0) (ll_tol ctl)"
    and "list_all (\<lambda>c. \<not> isnan (ll c))
           (pars # squarem_trace X data ctl min_step n max_step pars)"
    and "list_all (\<lambda>c. list_all (\<lambda>x. \<not> isnan x) (iter_lls X data ctl c))
           (butlast (pars # squarem_trace X data ctl min_step n max_step pars))"
  shows "\<forall>i<length (squarem_trace X data ctl min_step n max_step pars).
           fle (ll ((pars # squarem_trace X data ctl min_step n max_step pars) ! i))
               (ll (squarem_trace X data ctl min_step n max_step pars ! i))"
  using assms(2,3)
proof (induction n arbitrary: pars max_step)
  case 0
  then show ?case by simp
next
  case (Suc n)
  show ?case
  proof (cases "squarem_iter X data ctl min_step max_step pars")
    case (Inl err)
    then show ?thesis by simp
  next
    case (Inr r)
    show ?thesis
    proof (cases r)
      case (Break q)
      with Inr show ?thesis by simp
    next
      case (Continue p m)
      with Inr have it: "squarem_iter X data ctl min_step max_step pars = Inr (Continue p m)"
        by simp
      let ?t = "squarem_trace X data ctl min_step n m p"
      have tr: "squarem_trace X data ctl min_step (Suc n) max_step pars = p # ?t"
        using it by simp
      from Suc.prems have h:
        "\<not> isnan (ll pars)" "list_all (\<lambda>c. \<not> isnan (ll c)) (p # ?t)"
        "list_all (\<lambda>x. \<not> isnan x) (iter_lls X data ctl pars)"
        "list_all (\<lambda>c. list_all (\<lambda>x. \<not> isnan x) (iter_lls X data ctl c)) (butlast (p # ?t))"
        unfolding tr by simp_all
      from h(2) have np: "\<not> isnan (ll p)" by simp
      from squarem_iter_ll[OF tol it h(1) h(3) np] have st: "fle (ll pars) (ll p)" .
      from Suc.IH[OF h(2) h(4)] have
        ih: "\<forall>i<length ?t. fle (ll ((p # ?t) ! i)) (ll (?t ! i))" .
      show ?thesis
        unfolding tr
      proof (intro allI impI)
        fix i assume "i < length (p # ?t)"
        then show "fle (ll ((pars # p # ?t) ! i)) (ll ((p # ?t) ! i))"
          using st ih by (cases i) auto
      qed
    qed
  qed
qed


section \<open>Example runs of \<open>squarem\<close>\<close>

lemma np_mean_single: "np_mean [x] = x"
  by (cases x) (simp_all add: np_mean_def np_sum_def)

lemma norm_vec_cont: "norm_vec [Fin d, Fin 0, Fin 0] = Fin \<bar>d\<bar>"
  by (simp add: norm_vec_def np_nansum_def np_sum_def isnan_def)

lemma update_pars_cont_map:
  assumes "\<not> do_update_ftau ctl" "update_cont ctl" "\<not> do_update_eb ctl"
    and "par_cont p = [c]"
  shows "update_pars (X_cont_map f g) p data_one_read ctl =
     Inr (if copy_pars ctl then p
          else if do_ll ctl
          then p\<lparr>prev_cont := [c], par_cont := [f c], ll := g (f c), prev_ll := ll p\<rparr>
          else p\<lparr>prev_cont := [c], par_cont := [f c]\<rparr>,
          if do_ll ctl
          then p\<lparr>prev_cont := [c], par_cont := [f c], ll := g (f c), prev_ll := ll p\<rparr>
          else p\<lparr>prev_cont := [c], par_cont := [f c]\<rparr>)"
  using assms
  by (simp add: update_pars_def updated_pars_def Let_def cont_block_def update_c_def
      bool_index_def np_mean_single X_cont_map_def X_null_def data_one_read_def first_cont_def)

lemmas squarem_eval =
  squarem_def squarem_iter_def squarem_jump_def squarem_candidate_def update_pars_cont_map
  pars_sub_def flat_def vzip_def fsub_def stop_check_def norm_vec_cont step_size_of_def clip_def
  fmaximum_def fminimum_def isnan_def extrapolate_def set_flat_def stabilize_def fle_def
  accept_def Let_def signed_inf_def EPS_def ctl_squarem_def pars_cont_def pars_start_def
  pars_after_def

lemma halve_run:
  "squarem X_halve (pars_start (4 / 5) (Fin (4 / 5))) data_one_read
      (ctl_squarem\<lparr>ll_tol := Fin (- 1)\<rparr>)
   = (ctl_squarem\<lparr>ll_tol := Fin (- 1)\<rparr>,
      Inr (pars_after (2 / 5) (1 / 5) (Fin (1 / 5)) (Fin (2 / 5))))"
  by (simp add: squarem_eval X_halve_def)

text \<open>The run with \<open>X_drift (1/8)\<close> from the rate \<open>1/8\<close>: the rate goes to \<open>2/8\<close> and
  \<open>3/8\<close>, both steps are the same and no stopping check fires. All the numbers of the run
  are dyadic, so float64 computes them without rounding.\<close>

lemma drift_steps:
  "update_pars (X_drift (1 / 8)) (pars_start (1 / 8) (Fin (1 / 8))) data_one_read ctl_squarem
     = Inr (pars_start (1 / 8) (Fin (1 / 8)),
            pars_after (1 / 8) (1 / 4) (Fin (1 / 4)) (Fin (1 / 8)))"
  "pars_sub (pars_after (1 / 8) (1 / 4) (Fin (1 / 4)) (Fin (1 / 8)))
        (pars_start (1 / 8) (Fin (1 / 8))) = Inr [Fin (1 / 8), Fin 0, Fin 0]"
  "\<not> stop_check ctl_squarem [Fin (1 / 8), Fin 0, Fin 0]
        (fsub (ll (pars_after (1 / 8) (1 / 4) (Fin (1 / 4)) (Fin (1 / 8))))
              (prev_ll (pars_after (1 / 8) (1 / 4) (Fin (1 / 4)) (Fin (1 / 8)))))"
  "update_pars (X_drift (1 / 8)) (pars_after (1 / 8) (1 / 4) (Fin (1 / 4)) (Fin (1 / 8)))
        data_one_read ctl_squarem
     = Inr (pars_after (1 / 8) (1 / 4) (Fin (1 / 4)) (Fin (1 / 8)),
            pars_after (1 / 4) (3 / 8) (Fin (3 / 8)) (Fin (1 / 4)))"
  "pars_sub (pars_after (1 / 4) (3 / 8) (Fin (3 / 8)) (Fin (1 / 4)))
        (pars_after (1 / 8) (1 / 4) (Fin (1 / 4)) (Fin (1 / 8)))
      = Inr [Fin (1 / 8), Fin 0, Fin 0]"
  "\<not> stop_check ctl_squarem [Fin (1 / 8), Fin 0, Fin 0]
        (fsub (ll (pars_after (1 / 4) (3 / 8) (Fin (3 / 8)) (Fin (1 / 4))))
              (ll (pars_after (1 / 8) (1 / 4) (Fin (1 / 4)) (Fin (1 / 8)))))"
  "vzip fsub [Fin (1 / 8), Fin 0, Fin 0] [Fin (1 / 8), Fin 0, Fin 0]
      = Inr [Fin 0, Fin 0, Fin 0]"
  by (simp_all add: squarem_eval X_drift_def)

lemma drift_candidate:
  "squarem_candidate (flat (pars_start (1 / 8) (Fin (1 / 8)))) (Fin 2)
      [Fin (1 / 8), Fin 0, Fin 0] [Fin 0, Fin 0, Fin 0]
      (pars_after (1 / 4) (3 / 8) (Fin (3 / 8)) (Fin (1 / 4)))
     = Inr (pars_after (1 / 4) (5 / 8) (Fin (3 / 8)) (Fin (1 / 4)))"
  "update_pars (X_drift (1 / 8)) (pars_after (1 / 4) (5 / 8) (Fin (3 / 8)) (Fin (1 / 4)))
        data_one_read ctl_squarem
     = Inr (pars_after (1 / 4) (5 / 8) (Fin (3 / 8)) (Fin (1 / 4)),
            pars_after (5 / 8) (3 / 4) (Fin (3 / 4)) (Fin (3 / 8)))"
  "step_size_of [Fin (1 / 8), Fin 0, Fin 0] [Fin 0, Fin 0, Fin 0] (Fin 1) (Fin 2) = Fin 2"
  by (simp_all add: squarem_eval X_drift_def)

lemma drift_iter:
  "squarem_iter (X_drift (1 / 8)) data_one_read ctl_squarem (Fin 1) (Fin 2)
     (pars_start (1 / 8) (Fin (1 / 8)))
   = Inr (Continue (pars_after (5 / 8) (3 / 4) (Fin (3 / 4)) (Fin (3 / 8))) (Fin 8))"
  by (simp add: squarem_eval X_drift_def)


text \<open>Two outer iterations with \<open>X_drift (1/64)\<close> from the rate \<open>1/64\<close>: the candidates
  \<open>5/64\<close> and \<open>22/64\<close> are accepted.\<close>

lemma drift_trace:
  "squarem_trace (X_drift (1 / 64)) data_one_read ctl_squarem (Fin 1) 2 (Fin 2)
     (pars_start (1 / 64) (Fin (1 / 64)))
   = [pars_after (5 / 64) (3 / 32) (Fin (3 / 32)) (Fin (3 / 64)),
      pars_after (11 / 32) (23 / 64) (Fin (23 / 64)) (Fin (1 / 8))]"
  by (simp add: squarem_eval X_drift_def numeral_2_eq_2)

lemma drift_lls:
  "iter_lls (X_drift (1 / 64)) data_one_read ctl_squarem (pars_start (1 / 64) (Fin (1 / 64)))
     = [Fin (1 / 32), Fin (3 / 64)]"
  "iter_lls (X_drift (1 / 64)) data_one_read ctl_squarem
     (pars_after (5 / 64) (3 / 32) (Fin (3 / 32)) (Fin (3 / 64)))
     = [Fin (7 / 64), Fin (1 / 8)]"
  by (simp_all add: iter_lls_def squarem_eval X_drift_def)

section \<open>Claim C1: the log-likelihood of the current point\<close>

text \<open>
  Claim C1, as amended. When \<open>ll_tol\<close> is not negative and no log-likelihood of the run is
  NaN (that of the current point at the start and at the end of an outer iteration, and
  those of \<open>pars1\<close> and \<open>pars2\<close> of that iteration), the current point kept at the end of an
  outer iteration (\<open>pars2\<close> on rejection, \<open>pars_sq\<close> on acceptance) has a log-likelihood
  greater than or equal to that of the current point at the start of the iteration; and so
  along the outer iterations of a run, from each current point to the next. Nothing is
  asked of the likelihood at parameter vectors that the run does not visit.
\<close>

theorem squarem_accepted_ll_monotone:
  assumes "fle (Fin 0) (ll_tol ctl)"
  shows "(squarem_iter X data ctl min_step max_step pars = Inr (Continue p m)
          \<and> \<not> isnan (ll pars)
          \<and> list_all (\<lambda>x. \<not> isnan x) (iter_lls X data ctl pars)
          \<and> \<not> isnan (ll p)
          \<longrightarrow> fle (ll pars) (ll p))
       \<and> (list_all (\<lambda>c. \<not> isnan (ll c))
             (pars # squarem_trace X data ctl min_step n max_step pars)
          \<and> list_all (\<lambda>c. list_all (\<lambda>x. \<not> isnan x) (iter_lls X data ctl c))
               (butlast (pars # squarem_trace X data ctl min_step n max_step pars))
          \<longrightarrow> (\<forall>i<length (squarem_trace X data ctl min_step n max_step pars).
                 fle (ll ((pars # squarem_trace X data ctl min_step n max_step pars) ! i))
                     (ll (squarem_trace X data ctl min_step n max_step pars ! i))))"
  using squarem_iter_ll[OF assms] squarem_trace_ll[OF assms] by blast

text \<open>Two outer iterations, with a likelihood that is the rate itself: it rises from
  \<open>1/64\<close> to \<open>3/32\<close> to \<open>23/64\<close>.\<close>

theorem squarem_accepted_ll_monotone_witness:
  "squarem_trace (X_drift (1 / 64)) data_one_read ctl_squarem (Fin 1) 2 (Fin 2)
     (pars_start (1 / 64) (Fin (1 / 64)))
     = [pars_after (5 / 64) (3 / 32) (Fin (3 / 32)) (Fin (3 / 64)),
        pars_after (11 / 32) (23 / 64) (Fin (23 / 64)) (Fin (1 / 8))]
   \<and> fle (Fin 0) (ll_tol ctl_squarem)
   \<and> iter_lls (X_drift (1 / 64)) data_one_read ctl_squarem (pars_start (1 / 64) (Fin (1 / 64)))
        = [Fin (1 / 32), Fin (3 / 64)]
   \<and> iter_lls (X_drift (1 / 64)) data_one_read ctl_squarem
        (pars_after (5 / 64) (3 / 32) (Fin (3 / 32)) (Fin (3 / 64)))
        = [Fin (7 / 64), Fin (1 / 8)]
   \<and> fle (ll (pars_start (1 / 64) (Fin (1 / 64))))
          (ll (pars_after (5 / 64) (3 / 32) (Fin (3 / 32)) (Fin (3 / 64))))
   \<and> fle (ll (pars_after (5 / 64) (3 / 32) (Fin (3 / 32)) (Fin (3 / 64))))
          (ll (pars_after (11 / 32) (23 / 64) (Fin (23 / 64)) (Fin (1 / 8))))"
proof -
  let ?X = "X_drift (1 / 64)" and ?p0 = "pars_start (1 / 64) (Fin (1 / 64))"
  let ?A = "pars_after (5 / 64) (3 / 32) (Fin (3 / 32)) (Fin (3 / 64))"
  let ?B = "pars_after (11 / 32) (23 / 64) (Fin (23 / 64)) (Fin (1 / 8))"
  let ?T = "squarem_trace ?X data_one_read ctl_squarem (Fin 1) 2 (Fin 2) ?p0"
  have a: "fle (Fin 0) (ll_tol ctl_squarem)"
    by (simp add: ctl_squarem_def fle_def)
  have T: "?T = [?A, ?B]" by (rule drift_trace)
  have h1: "list_all (\<lambda>c. \<not> isnan (ll c)) (?p0 # ?T)"
    unfolding T by (simp add: pars_start_def pars_after_def isnan_def)
  have h2: "list_all (\<lambda>c. list_all (\<lambda>x. \<not> isnan x) (iter_lls ?X data_one_read ctl_squarem c))
              (butlast (?p0 # ?T))"
    unfolding T by (simp add: drift_lls isnan_def)
  from squarem_accepted_ll_monotone[OF a, where X = ?X and data = data_one_read
      and min_step = "Fin 1" and max_step = "Fin 2" and pars = ?p0 and n = 2] h1 h2
  have al: "\<forall>i<length ?T. fle (ll ((?p0 # ?T) ! i)) (ll (?T ! i))" by blast
  have len: "length ?T = 2" unfolding T by simp
  from al[rule_format, of 0] len have s0: "fle (ll ?p0) (ll ?A)"
    unfolding T by simp
  from al[rule_format, of 1] len have s1: "fle (ll ?A) (ll ?B)"
    unfolding T by simp
  from T a drift_lls s0 s1 show ?thesis by blast
qed

text \<open>With \<open>ll_tol = -1\<close> the likelihood of the current point falls from \<open>4/5\<close> to
  \<open>1/5\<close> in one outer iteration. With \<open>ll_tol = 0\<close> and a likelihood that is NaN at the
  candidate, the candidate is accepted, since \<open>NaN <= pars2.ll\<close> is false.\<close>

theorem squarem_ll_decreases_counterexample:
  "squarem X_halve (pars_start (4 / 5) (Fin (4 / 5))) data_one_read
      (ctl_squarem\<lparr>ll_tol := Fin (- 1)\<rparr>)
     = (ctl_squarem\<lparr>ll_tol := Fin (- 1)\<rparr>,
        Inr (pars_after (2 / 5) (1 / 5) (Fin (1 / 5)) (Fin (2 / 5))))
   \<and> squarem_iter X_halve data_one_read (ctl_squarem\<lparr>ll_tol := Fin (- 1)\<rparr>) (Fin 1) (Fin 2)
        (pars_start (4 / 5) (Fin (4 / 5)))
     = Inr (Continue (pars_after (2 / 5) (1 / 5) (Fin (1 / 5)) (Fin (2 / 5))) (Fin 2))
   \<and> \<not> fle (ll (pars_start (4 / 5) (Fin (4 / 5))))
            (ll (pars_after (2 / 5) (1 / 5) (Fin (1 / 5)) (Fin (2 / 5))))
   \<and> squarem_iter X_halve_nan data_one_read ctl_squarem (Fin 1) (Fin 2)
        (pars_start (4 / 5) (Fin (1 / 5)))
     = Inr (Continue (pars_after 0 0 NaN (Fin (4 / 5))) (Fin 8))
   \<and> \<not> fle (ll (pars_start (4 / 5) (Fin (1 / 5)))) (ll (pars_after 0 0 NaN (Fin (4 / 5))))"
proof -
  have "squarem_iter X_halve data_one_read (ctl_squarem\<lparr>ll_tol := Fin (- 1)\<rparr>) (Fin 1) (Fin 2)
        (pars_start (4 / 5) (Fin (4 / 5)))
     = Inr (Continue (pars_after (2 / 5) (1 / 5) (Fin (1 / 5)) (Fin (2 / 5))) (Fin 2))"
    by (simp add: squarem_eval X_halve_def)
  moreover have "squarem_iter X_halve_nan data_one_read ctl_squarem (Fin 1) (Fin 2)
        (pars_start (4 / 5) (Fin (1 / 5)))
     = Inr (Continue (pars_after 0 0 NaN (Fin (4 / 5))) (Fin 8))"
    by (simp add: squarem_eval X_halve_nan_def)
  moreover have "\<not> fle (ll (pars_start (4 / 5) (Fin (4 / 5))))
            (ll (pars_after (2 / 5) (1 / 5) (Fin (1 / 5)) (Fin (2 / 5))))"
    "\<not> fle (ll (pars_start (4 / 5) (Fin (1 / 5)))) (ll (pars_after 0 0 NaN (Fin (4 / 5))))"
    by (simp_all add: pars_start_def pars_after_def fle_def)
  ultimately show ?thesis using halve_run by blast
qed


section \<open>Claim C2: a zero \<open>\<Delta>p3\<close>\<close>















section \<open>Claim C3: the acceptance rule\<close>

text \<open>
  Claim C3, as amended. In an outer iteration in which no stopping check fires, with
  \<open>pars2\<close> the second update, the candidate the stabilised extrapolation and \<open>pars_sq\<close> the
  update of the candidate, and with a factor \<open>squarem_mstep\<close> that is not 0: if
  \<open>pars_sq.ll <= pars2.ll\<close> the candidate is rejected, the iteration continues from \<open>pars2\<close>,
  and when the step size had reached the maximal step, the maximal step becomes the
  larger of the configured \<open>squarem_max\<close> and \<open>max_step / squarem_mstep\<close>: it is divided by
  the factor but not reduced below the configured maximum (not the configured minimum).
  Otherwise the candidate is accepted, the iteration continues from \<open>pars_sq\<close> and, when the
  step size equals the maximal step, the maximal step is multiplied by \<open>squarem_mstep\<close>.
\<close>

theorem squarem_acceptance_rule:
  assumes "update_pars X pars data ctl = Inr (a, pars1)" and "pars_sub pars1 pars = Inr dp1"
    and "\<not> stop_check ctl dp1 (fsub (ll pars1) (prev_ll pars1))"
    and "update_pars X pars1 data ctl = Inr (b, pars2)" and "pars_sub pars2 pars1 = Inr dp2"
    and "\<not> stop_check ctl dp2 (fsub (ll pars2) (ll pars1))"
    and "vzip fsub dp2 dp1 = Inr dp3"
    and "squarem_candidate (flat pars) (step_size_of dp1 dp3 min_step max_step) dp1 dp3 pars2
           = Inr cand"
    and "update_pars X cand data ctl = Inr (c, pars_sq)"
    and "squarem_mstep ctl \<noteq> Fin 0"
  shows "squarem_iter X data ctl min_step max_step pars =
           Inr (if fle (ll pars_sq) (ll pars2)
                then Continue pars2
                       (if fle max_step (step_size_of dp1 dp3 min_step max_step)
                        then fmaximum (squarem_max ctl) (fdiv max_step (squarem_mstep ctl))
                        else max_step)
                else Continue pars_sq
                       (if feq (step_size_of dp1 dp3 min_step max_step) max_step
                        then fmul max_step (squarem_mstep ctl)
                        else max_step))
       \<and> (\<forall>M0 M s. squarem_max ctl = Fin M0 \<and> max_step = Fin M \<and> squarem_mstep ctl = Fin s
             \<longrightarrow>
               fmaximum (squarem_max ctl) (fdiv max_step (squarem_mstep ctl))
                 = Fin (max M0 (M / s))
             \<and> fmul max_step (squarem_mstep ctl) = Fin (M * s))"
proof -
  from squarem_iter_steps[OF assms(1-7), of min_step max_step] assms(8)
  have "squarem_iter X data ctl min_step max_step pars =
          (case update_pars X cand data ctl of
             Inl err \<Rightarrow> Inl err
           | Inr (c, pars_sq) \<Rightarrow>
               (case accept ctl (step_size_of dp1 dp3 min_step max_step) max_step
                       pars2 pars_sq of
                  Inl err \<Rightarrow> Inl err
                | Inr (p, m) \<Rightarrow> Inr (Continue p m)))"
    by auto
  then have "squarem_iter X data ctl min_step max_step pars =
           Inr (if fle (ll pars_sq) (ll pars2)
                then Continue pars2
                       (if fle max_step (step_size_of dp1 dp3 min_step max_step)
                        then fmaximum (squarem_max ctl) (fdiv max_step (squarem_mstep ctl))
                        else max_step)
                else Continue pars_sq
                       (if feq (step_size_of dp1 dp3 min_step max_step) max_step
                        then fmul max_step (squarem_mstep ctl)
                        else max_step))"
    using assms(9,10) by (simp add: accept_def)
  moreover have "\<forall>M0 M s. squarem_max ctl = Fin M0 \<and> max_step = Fin M
             \<and> squarem_mstep ctl = Fin s \<longrightarrow>
               fmaximum (squarem_max ctl) (fdiv max_step (squarem_mstep ctl))
                 = Fin (max M0 (M / s))
             \<and> fmul max_step (squarem_mstep ctl) = Fin (M * s)"
    using assms(10) by (auto simp: fmaximum_def isnan_def max_def)
  ultimately show ?thesis by (rule conjI)
qed

text \<open>The run with \<open>X_drift (1/8)\<close>: the likelihood \<open>6/8\<close> of the updated candidate is
  above the \<open>3/8\<close> of \<open>pars2\<close>, the candidate is accepted and, the step size 2 being the
  maximal step, the maximal step becomes \<open>2 * 4 = 8\<close>.\<close>

theorem squarem_acceptance_rule_witness:
  "squarem_iter (X_drift (1 / 8)) data_one_read ctl_squarem (Fin 1) (Fin 2)
     (pars_start (1 / 8) (Fin (1 / 8)))
     = Inr (Continue (pars_after (5 / 8) (3 / 4) (Fin (3 / 4)) (Fin (3 / 8))) (Fin 8))
   \<and> squarem_candidate (flat (pars_start (1 / 8) (Fin (1 / 8))))
        (step_size_of [Fin (1 / 8), Fin 0, Fin 0] [Fin 0, Fin 0, Fin 0] (Fin 1) (Fin 2))
        [Fin (1 / 8), Fin 0, Fin 0] [Fin 0, Fin 0, Fin 0]
        (pars_after (1 / 4) (3 / 8) (Fin (3 / 8)) (Fin (1 / 4)))
       = Inr (pars_after (1 / 4) (5 / 8) (Fin (3 / 8)) (Fin (1 / 4)))
   \<and> update_pars (X_drift (1 / 8)) (pars_after (1 / 4) (5 / 8) (Fin (3 / 8)) (Fin (1 / 4)))
        data_one_read ctl_squarem
       = Inr (pars_after (1 / 4) (5 / 8) (Fin (3 / 8)) (Fin (1 / 4)),
              pars_after (5 / 8) (3 / 4) (Fin (3 / 4)) (Fin (3 / 8)))
   \<and> \<not> fle (ll (pars_after (5 / 8) (3 / 4) (Fin (3 / 4)) (Fin (3 / 8))))
            (ll (pars_after (1 / 4) (3 / 8) (Fin (3 / 8)) (Fin (1 / 4))))
   \<and> feq (step_size_of [Fin (1 / 8), Fin 0, Fin 0] [Fin 0, Fin 0, Fin 0] (Fin 1) (Fin 2)) (Fin 2)
   \<and> fmul (Fin 2) (squarem_mstep ctl_squarem) = Fin 8
   \<and> squarem_mstep ctl_squarem \<noteq> Fin 0"
proof -
  have m: "squarem_mstep ctl_squarem \<noteq> Fin 0" by (simp add: ctl_squarem_def)
  have cd: "squarem_candidate (flat (pars_start (1 / 8) (Fin (1 / 8))))
        (step_size_of [Fin (1 / 8), Fin 0, Fin 0] [Fin 0, Fin 0, Fin 0] (Fin 1) (Fin 2))
        [Fin (1 / 8), Fin 0, Fin 0] [Fin 0, Fin 0, Fin 0]
        (pars_after (1 / 4) (3 / 8) (Fin (3 / 8)) (Fin (1 / 4)))
       = Inr (pars_after (1 / 4) (5 / 8) (Fin (3 / 8)) (Fin (1 / 4)))"
    unfolding drift_candidate(3) by (rule drift_candidate(1))
  have r: "\<not> fle (ll (pars_after (5 / 8) (3 / 4) (Fin (3 / 4)) (Fin (3 / 8))))
            (ll (pars_after (1 / 4) (3 / 8) (Fin (3 / 8)) (Fin (1 / 4))))"
    "feq (step_size_of [Fin (1 / 8), Fin 0, Fin 0] [Fin 0, Fin 0, Fin 0] (Fin 1) (Fin 2)) (Fin 2)"
    "fmul (Fin 2) (squarem_mstep ctl_squarem) = Fin 8"
    by (simp_all add: drift_candidate(3) pars_after_def pars_cont_def fle_def ctl_squarem_def)
  from squarem_acceptance_rule[OF drift_steps cd drift_candidate(2) m] r
  have "squarem_iter (X_drift (1 / 8)) data_one_read ctl_squarem (Fin 1) (Fin 2)
     (pars_start (1 / 8) (Fin (1 / 8)))
     = Inr (Continue (pars_after (5 / 8) (3 / 4) (Fin (3 / 4)) (Fin (3 / 8))) (Fin 8))"
    by simp
  with cd drift_candidate(2) r m show ?thesis by (intro conjI)
qed

text \<open>With the likelihood switched off every candidate is rejected. The step size 2 has
  reached the maximal step 2, the configured minimum is 1 and the factor is 4: the claim
  has the maximal step become \<open>max 1 (2 / 4) = 1\<close>, the code keeps it at the configured
  maximum 2.\<close>

theorem max_step_floor_counterexample:
  "squarem_iter X_halve data_one_read (ctl_squarem\<lparr>do_ll := False\<rparr>) (Fin 1) (Fin 2)
     (pars_start (4 / 5) (Fin 0))
     = Inr (Continue (pars_after (2 / 5) (1 / 5) (Fin 0) (Fin 0)) (Fin 2))
   \<and> step_size_of [Fin (- (2 / 5)), Fin 0, Fin 0] [Fin (1 / 5), Fin 0, Fin 0] (Fin 1) (Fin 2)
     = Fin 2
   \<and> squarem_min (ctl_squarem\<lparr>do_ll := False\<rparr>) = Fin 1
   \<and> squarem_max (ctl_squarem\<lparr>do_ll := False\<rparr>) = Fin 2
   \<and> fmaximum (squarem_min (ctl_squarem\<lparr>do_ll := False\<rparr>))
        (fdiv (Fin 2) (squarem_mstep (ctl_squarem\<lparr>do_ll := False\<rparr>))) = Fin 1"
  by (simp add: squarem_eval X_halve_def)

section \<open>Claim C10: the controller after \<open>squarem\<close>\<close>

text \<open>
  Claim C10. \<open>squarem\<close> sets \<open>controller.copy_pars\<close> to True before its first iteration,
  on the controller object of the caller: the controller that the call leaves behind is
  the caller's with \<open>copy_pars\<close> set and nothing else changed, also when the call ends in
  an exception or runs no iteration; the loop runs under that controller; and the value
  that the caller had configured for \<open>copy_pars\<close> has no influence on the outcome.
\<close>

theorem squarem_sets_copy_pars:
  "fst (squarem X pars0 data ctl) = ctl\<lparr>copy_pars := True\<rparr>
   \<and> copy_pars (fst (squarem X pars0 data ctl))
   \<and> snd (squarem X pars0 data ctl) =
       squarem_loop X data (ctl\<lparr>copy_pars := True\<rparr>) (squarem_min ctl) (n_iter ctl)
         (squarem_max ctl) pars0
   \<and> squarem X pars0 data (ctl\<lparr>copy_pars := c\<rparr>) = squarem X pars0 data ctl"
  by (simp add: squarem_def Let_def)

end
